theory Spec2Isabelle
  imports Complex_Main
begin

section \<open>Expressions (the collaborating syntax module)\<close>

text \<open>
  \<open>cost_model.py\<close> consumes the expression language of \<open>cozy.target_syntax\<close>, the
  helpers of \<open>cozy.syntax_tools\<close>, the evaluator and the solver. None of them is part of
  the file; they are modelled here from the specification, section 6: typed,
  tree-shaped terms with structural equality, free variables, substitution and a node
  count. Every node carries its type annotation (the attribute that \<open>with_type\<close> sets).
  In the tests of the source (\<open>==\<close>, \<open>!=\<close>) two expressions are equal when the annotated
  terms are; as keys of the dictionary of cardinalities, expressions are compared up to
  alpha-equivalence, which is what the specification requires of their equality and hashing
  (sections 3, 4.2 and 5). The module constants \<open>INT\<close>, \<open>BOOL\<close> and \<open>REAL\<close> are the types
  \<open>TInt\<close>, \<open>TBool\<close> and \<open>TReal\<close>.
\<close>

datatype ty = TInt | TBool | TReal | TBag ty | TSet ty | TList ty | TMap ty ty
  | TFunc ty ty | TNative string | Untyped

text \<open>Modelled from the spec: \<open>is_collection\<close> of \<open>cozy.typecheck\<close>.\<close>

fun is_collection :: "ty \<Rightarrow> bool" where
  "is_collection (TBag _) = True"
| "is_collection (TSet _) = True"
| "is_collection (TList _) = True"
| "is_collection _ = False"

datatype exp =
    EVar string ty
  | EBool bool ty
  | ENum int ty
  | ECond exp exp exp ty
  | EBinOp exp string exp ty
  | EUnaryOp string exp ty
  | EEmptyList ty
  | ESingleton exp ty
  | ELambda string ty exp
  | EFilter exp exp ty
  | EMap exp exp ty
  | EFlatMap exp exp ty
  | EArgMin exp exp ty
  | EArgMax exp exp ty
  | EMapGet exp exp ty
  | EMakeMap2 exp exp ty
  | EStateVar exp ty
  | EDropFront exp ty
  | EDropBack exp ty

text \<open>
  \<open>ELambda x t b\<close> is the lambda whose formal parameter is the variable \<open>x\<close> of type
  \<open>t\<close> and whose body is \<open>b\<close>. \<open>EFlatMap\<close>'s rule builds an \<open>EMap\<close> node without calling
  \<open>with_type\<close>; its annotation is \<open>Untyped\<close>.
\<close>

fun type_of :: "exp \<Rightarrow> ty" where
  "type_of (EVar _ t) = t"
| "type_of (EBool _ t) = t"
| "type_of (ENum _ t) = t"
| "type_of (ECond _ _ _ t) = t"
| "type_of (EBinOp _ _ _ t) = t"
| "type_of (EUnaryOp _ _ t) = t"
| "type_of (EEmptyList t) = t"
| "type_of (ESingleton _ t) = t"
| "type_of (ELambda _ t b) = TFunc t (type_of b)"
| "type_of (EFilter _ _ t) = t"
| "type_of (EMap _ _ t) = t"
| "type_of (EFlatMap _ _ t) = t"
| "type_of (EArgMin _ _ t) = t"
| "type_of (EArgMax _ _ t) = t"
| "type_of (EMapGet _ _ t) = t"
| "type_of (EMakeMap2 _ _ t) = t"
| "type_of (EStateVar _ t) = t"
| "type_of (EDropFront _ t) = t"
| "type_of (EDropBack _ t) = t"

fun with_type :: "exp \<Rightarrow> ty \<Rightarrow> exp" where
  "with_type (EVar x _) t = EVar x t"
| "with_type (EBool b _) t = EBool b t"
| "with_type (ENum n _) t = ENum n t"
| "with_type (ECond c a b _) t = ECond c a b t"
| "with_type (EBinOp a op b _) t = EBinOp a op b t"
| "with_type (EUnaryOp op a _) t = EUnaryOp op a t"
| "with_type (EEmptyList _) t = EEmptyList t"
| "with_type (ESingleton a _) t = ESingleton a t"
| "with_type (ELambda x u b) t = ELambda x u b"
| "with_type (EFilter a p _) t = EFilter a p t"
| "with_type (EMap a f _) t = EMap a f t"
| "with_type (EFlatMap a f _) t = EFlatMap a f t"
| "with_type (EArgMin a f _) t = EArgMin a f t"
| "with_type (EArgMax a f _) t = EArgMax a f t"
| "with_type (EMapGet m k _) t = EMapGet m k t"
| "with_type (EMakeMap2 a v _) t = EMakeMap2 a v t"
| "with_type (EStateVar a _) t = EStateVar a t"
| "with_type (EDropFront a _) t = EDropFront a t"
| "with_type (EDropBack a _) t = EDropBack a t"

text \<open>Modelled from the spec: the node count \<open>size()\<close> of an expression.\<close>

fun size_e :: "exp \<Rightarrow> nat" where
  "size_e (EVar _ _) = 1"
| "size_e (EBool _ _) = 1"
| "size_e (ENum _ _) = 1"
| "size_e (ECond c a b _) = 1 + size_e c + size_e a + size_e b"
| "size_e (EBinOp a _ b _) = 1 + size_e a + size_e b"
| "size_e (EUnaryOp _ a _) = 1 + size_e a"
| "size_e (EEmptyList _) = 1"
| "size_e (ESingleton a _) = 1 + size_e a"
| "size_e (ELambda _ _ b) = 2 + size_e b"
| "size_e (EFilter a p _) = 1 + size_e a + size_e p"
| "size_e (EMap a f _) = 1 + size_e a + size_e f"
| "size_e (EFlatMap a f _) = 1 + size_e a + size_e f"
| "size_e (EArgMin a f _) = 1 + size_e a + size_e f"
| "size_e (EArgMax a f _) = 1 + size_e a + size_e f"
| "size_e (EMapGet m k _) = 1 + size_e m + size_e k"
| "size_e (EMakeMap2 a v _) = 1 + size_e a + size_e v"
| "size_e (EStateVar a _) = 1 + size_e a"
| "size_e (EDropFront a _) = 1 + size_e a"
| "size_e (EDropBack a _) = 1 + size_e a"

subsection \<open>Operators and constants\<close>

definition UOp_Sum :: string where "UOp_Sum = ''sum''"
definition UOp_Distinct :: string where "UOp_Distinct = ''distinct''"
definition UOp_AreUnique :: string where "UOp_AreUnique = ''unique''"
definition UOp_All :: string where "UOp_All = ''all''"
definition UOp_Any :: string where "UOp_Any = ''any''"
definition UOp_Length :: string where "UOp_Length = ''len''"
definition UOp_Not :: string where "UOp_Not = ''not''"
definition BOp_In :: string where "BOp_In = ''in''"
definition BOp_And :: string where "BOp_And = ''and''"
definition BOp_Or :: string where "BOp_Or = ''or''"

lemmas op_defs = UOp_Sum_def UOp_Distinct_def UOp_AreUnique_def UOp_All_def UOp_Any_def
  UOp_Length_def UOp_Not_def BOp_In_def BOp_And_def BOp_Or_def

definition ZERO :: exp where "ZERO = ENum 0 TInt"
definition ONE :: exp where "ONE = ENum 1 TInt"
definition T :: exp where "T = EBool True TBool"
definition F :: exp where "F = EBool False TBool"

definition ENot :: "exp \<Rightarrow> exp" where
  "ENot a = EUnaryOp UOp_Not a TBool"

definition EEq :: "exp \<Rightarrow> exp \<Rightarrow> exp" where
  "EEq a b = EBinOp a ''=='' b TBool"

definition EImplies :: "exp \<Rightarrow> exp \<Rightarrow> exp" where
  "EImplies a b = EBinOp a ''=>'' b TBool"

definition ELen :: "exp \<Rightarrow> exp" where
  "ELen a = EUnaryOp UOp_Length a TInt"

text \<open>
  Modelled from the spec: \<open>build_balanced_tree\<close> rebuilds a non-empty list of terms as a
  balanced binary tree of one operator. Every caller in the model passes a non-empty
  list; on the empty list the source would recurse without end, and the model leaves
  the value unspecified.
\<close>

function build_balanced_tree :: "ty \<Rightarrow> string \<Rightarrow> exp list \<Rightarrow> exp" where
  "build_balanced_tree t op es =
     (if es = [] then undefined
      else if length es = 1 then es ! 0
      else (let cut = length es div 2
            in EBinOp (build_balanced_tree t op (take cut es)) op
                      (build_balanced_tree t op (drop cut es)) t))"
  by pat_completeness auto
termination
proof (relation "measure (\<lambda>(t, op, es). length es)", goal_cases)
  case 1
  show ?case by simp
next
  case (2 t op es cut)
  then show ?case by (cases es) auto
next
  case (3 t op es cut)
  then have "2 \<le> length es"
    by (cases es) (auto simp: Suc_le_eq)
  then have "0 < length es div 2"
    by simp
  with 3 show ?case by simp
qed

declare build_balanced_tree.simps [simp del]

text \<open>Modelled from the spec: conjunction and disjunction of a list of formulas.\<close>

definition EAll :: "exp list \<Rightarrow> exp" where
  "EAll exps =
     (let es = filter (\<lambda>e. e \<noteq> T) exps
      in if \<exists>e \<in> set es. e = F then F
         else if es = [] then T
         else build_balanced_tree TBool BOp_And es)"

definition EAny :: "exp list \<Rightarrow> exp" where
  "EAny exps =
     (let es = filter (\<lambda>e. e \<noteq> F) exps
      in if \<exists>e \<in> set es. e = T then T
         else if es = [] then F
         else build_balanced_tree TBool BOp_Or es)"

subsection \<open>Free variables, substitution, alpha-equivalence\<close>

fun var_id :: "exp \<Rightarrow> string" where
  "var_id (EVar x _) = x"
| "var_id _ = []"

text \<open>Modelled from the spec: free-variable extraction, in order of first occurrence.\<close>

fun fv :: "exp \<Rightarrow> exp list" where
  "fv (EVar x t) = [EVar x t]"
| "fv (EBool _ _) = []"
| "fv (ENum _ _) = []"
| "fv (ECond c a b _) = fv c @ fv a @ fv b"
| "fv (EBinOp a _ b _) = fv a @ fv b"
| "fv (EUnaryOp _ a _) = fv a"
| "fv (EEmptyList _) = []"
| "fv (ESingleton a _) = fv a"
| "fv (ELambda x _ b) = filter (\<lambda>v. var_id v \<noteq> x) (fv b)"
| "fv (EFilter a p _) = fv a @ fv p"
| "fv (EMap a f _) = fv a @ fv f"
| "fv (EFlatMap a f _) = fv a @ fv f"
| "fv (EArgMin a f _) = fv a @ fv f"
| "fv (EArgMax a f _) = fv a @ fv f"
| "fv (EMapGet m k _) = fv m @ fv k"
| "fv (EMakeMap2 a v _) = fv a @ fv v"
| "fv (EStateVar a _) = fv a"
| "fv (EDropFront a _) = fv a"
| "fv (EDropBack a _) = fv a"

definition free_vars :: "exp \<Rightarrow> exp list" where
  "free_vars a = rev (remdups (rev (fv a)))"

text \<open>
  Modelled from the spec: substitution of expressions for free variables, given as a
  dictionary from identifiers to replacements. Under a binder the bound identifier is
  dropped from the dictionary. The cost model only substitutes variables that
  \<open>fresh_var\<close> has just made, which no binder of the term can capture.
\<close>

fun subst :: "exp \<Rightarrow> (string \<times> exp) list \<Rightarrow> exp" where
  "subst (EVar x t) m = (case map_of m x of Some r \<Rightarrow> r | None \<Rightarrow> EVar x t)"
| "subst (EBool b t) m = EBool b t"
| "subst (ENum n t) m = ENum n t"
| "subst (ECond c a b t) m = ECond (subst c m) (subst a m) (subst b m) t"
| "subst (EBinOp a op b t) m = EBinOp (subst a m) op (subst b m) t"
| "subst (EUnaryOp op a t) m = EUnaryOp op (subst a m) t"
| "subst (EEmptyList t) m = EEmptyList t"
| "subst (ESingleton a t) m = ESingleton (subst a m) t"
| "subst (ELambda x u b) m = ELambda x u (subst b (filter (\<lambda>kv. fst kv \<noteq> x) m))"
| "subst (EFilter a p t) m = EFilter (subst a m) (subst p m) t"
| "subst (EMap a f t) m = EMap (subst a m) (subst f m) t"
| "subst (EFlatMap a f t) m = EFlatMap (subst a m) (subst f m) t"
| "subst (EArgMin a f t) m = EArgMin (subst a m) (subst f m) t"
| "subst (EArgMax a f t) m = EArgMax (subst a m) (subst f m) t"
| "subst (EMapGet a k t) m = EMapGet (subst a m) (subst k m) t"
| "subst (EMakeMap2 a v t) m = EMakeMap2 (subst a m) (subst v m) t"
| "subst (EStateVar a t) m = EStateVar (subst a m) t"
| "subst (EDropFront a t) m = EDropFront (subst a m) t"
| "subst (EDropBack a t) m = EDropBack (subst a m) t"

text \<open>
  Modelled from the spec: alpha-equivalence. Two expressions are compared node by node
  under a list of paired binders, innermost first; annotations are not compared.
\<close>

fun var_match :: "(string \<times> string) list \<Rightarrow> string \<Rightarrow> string \<Rightarrow> bool" where
  "var_match [] x y = (x = y)"
| "var_match ((a, b) # m) x y =
     (if x = a \<or> y = b then x = a \<and> y = b else var_match m x y)"

fun alpha_eq :: "(string \<times> string) list \<Rightarrow> exp \<Rightarrow> exp \<Rightarrow> bool" where
  "alpha_eq m (EVar x _) e2 = (case e2 of EVar y _ \<Rightarrow> var_match m x y | _ \<Rightarrow> False)"
| "alpha_eq m (EBool b _) e2 = (case e2 of EBool c _ \<Rightarrow> b = c | _ \<Rightarrow> False)"
| "alpha_eq m (ENum n _) e2 = (case e2 of ENum k _ \<Rightarrow> n = k | _ \<Rightarrow> False)"
| "alpha_eq m (ECond c a b _) e2 =
     (case e2 of ECond c' a' b' _ \<Rightarrow> alpha_eq m c c' \<and> alpha_eq m a a' \<and> alpha_eq m b b'
      | _ \<Rightarrow> False)"
| "alpha_eq m (EBinOp a op b _) e2 =
     (case e2 of EBinOp a' op' b' _ \<Rightarrow> alpha_eq m a a' \<and> op = op' \<and> alpha_eq m b b'
      | _ \<Rightarrow> False)"
| "alpha_eq m (EUnaryOp op a _) e2 =
     (case e2 of EUnaryOp op' a' _ \<Rightarrow> op = op' \<and> alpha_eq m a a' | _ \<Rightarrow> False)"
| "alpha_eq m (EEmptyList _) e2 = (case e2 of EEmptyList _ \<Rightarrow> True | _ \<Rightarrow> False)"
| "alpha_eq m (ESingleton a _) e2 =
     (case e2 of ESingleton a' _ \<Rightarrow> alpha_eq m a a' | _ \<Rightarrow> False)"
| "alpha_eq m (ELambda x _ b) e2 =
     (case e2 of ELambda y _ b' \<Rightarrow> alpha_eq ((x, y) # m) b b' | _ \<Rightarrow> False)"
| "alpha_eq m (EFilter a p _) e2 =
     (case e2 of EFilter a' p' _ \<Rightarrow> alpha_eq m a a' \<and> alpha_eq m p p' | _ \<Rightarrow> False)"
| "alpha_eq m (EMap a f _) e2 =
     (case e2 of EMap a' f' _ \<Rightarrow> alpha_eq m a a' \<and> alpha_eq m f f' | _ \<Rightarrow> False)"
| "alpha_eq m (EFlatMap a f _) e2 =
     (case e2 of EFlatMap a' f' _ \<Rightarrow> alpha_eq m a a' \<and> alpha_eq m f f' | _ \<Rightarrow> False)"
| "alpha_eq m (EArgMin a f _) e2 =
     (case e2 of EArgMin a' f' _ \<Rightarrow> alpha_eq m a a' \<and> alpha_eq m f f' | _ \<Rightarrow> False)"
| "alpha_eq m (EArgMax a f _) e2 =
     (case e2 of EArgMax a' f' _ \<Rightarrow> alpha_eq m a a' \<and> alpha_eq m f f' | _ \<Rightarrow> False)"
| "alpha_eq m (EMapGet a k _) e2 =
     (case e2 of EMapGet a' k' _ \<Rightarrow> alpha_eq m a a' \<and> alpha_eq m k k' | _ \<Rightarrow> False)"
| "alpha_eq m (EMakeMap2 a v _) e2 =
     (case e2 of EMakeMap2 a' v' _ \<Rightarrow> alpha_eq m a a' \<and> alpha_eq m v v' | _ \<Rightarrow> False)"
| "alpha_eq m (EStateVar a _) e2 =
     (case e2 of EStateVar a' _ \<Rightarrow> alpha_eq m a a' | _ \<Rightarrow> False)"
| "alpha_eq m (EDropFront a _) e2 =
     (case e2 of EDropFront a' _ \<Rightarrow> alpha_eq m a a' | _ \<Rightarrow> False)"
| "alpha_eq m (EDropBack a _) e2 =
     (case e2 of EDropBack a' _ \<Rightarrow> alpha_eq m a a' | _ \<Rightarrow> False)"

definition alpha_equivalent :: "exp \<Rightarrow> exp \<Rightarrow> bool" where
  "alpha_equivalent a b = alpha_eq [] a b"


section \<open>Sums of cost terms\<close>

fun break_sum :: "exp \<Rightarrow> exp list" where
  "break_sum (EBinOp a op b t) =
     (if op = ''+'' then break_sum a @ break_sum b else [EBinOp a op b t])"
| "break_sum x = [x]"

fun is_ENum :: "exp \<Rightarrow> bool" where
  "is_ENum (ENum _ _) = True"
| "is_ENum _ = False"

fun num_val :: "exp \<Rightarrow> int" where
  "num_val (ENum n _) = n"
| "num_val _ = 0"

definition ESum :: "exp list \<Rightarrow> exp" where
  "ESum xs =
     (let es = filter (\<lambda>x. x \<noteq> ZERO) (concat (map break_sum xs))
      in if es = [] then ZERO
         else (let (nums, nonnums) = partition is_ENum es;
                   es' = (if nums \<noteq> [] then nonnums @ [ENum (sum_list (map num_val nums)) TInt]
                          else nonnums)
               in build_balanced_tree TInt ''+'' es'))"

definition EXTREME_COST :: exp where "EXTREME_COST = ENum 1000 TInt"
definition MILD_PENALTY :: exp where "MILD_PENALTY = ENum 10 TInt"
definition TWO :: exp where "TWO = ENum 2 TInt"

section \<open>The cost model's scratch state\<close>

text \<open>
  \<open>CompositeCostModel\<close> keeps three attributes during a runtime-pool call: the ordered
  dictionary \<open>cardinalities\<close> (expression to variable), the list \<open>assumptions\<close> and the
  number \<open>secondaries\<close>. \<open>fresh_var\<close> draws names from a counter of the process; the
  counter is the fourth component of the state. An ordered dictionary is an association
  list in insertion order.
\<close>

fun od_set :: "('k \<times> 'v) list \<Rightarrow> 'k \<Rightarrow> 'v \<Rightarrow> ('k \<times> 'v) list" where
  "od_set [] k v = [(k, v)]"
| "od_set ((k', v') # d) k v = (if k' = k then (k, v) # d else (k', v') # od_set d k v)"

fun od_update :: "('k \<times> 'v) list \<Rightarrow> ('k \<times> 'v) list \<Rightarrow> ('k \<times> 'v) list" where
  "od_update d [] = d"
| "od_update d ((k, v) # kvs) = od_update (od_set d k v) kvs"

text \<open>
  Modelled from the spec: the dictionary \<open>cardinalities\<close> of the cost model has expressions as
  keys, and the equality and hashing of expressions respect alpha-equivalence. \<open>table_get\<close>
  finds the first entry whose key is alpha-equivalent to the expression looked up;
  \<open>table_set\<close> changes the value of that entry, keeping its key, or adds an entry at the end.
\<close>

fun table_get :: "(exp \<times> 'v) list \<Rightarrow> exp \<Rightarrow> 'v option" where
  "table_get [] x = None"
| "table_get ((k, v) # d) x = (if alpha_equivalent k x then Some v else table_get d x)"

fun table_set :: "(exp \<times> 'v) list \<Rightarrow> exp \<Rightarrow> 'v \<Rightarrow> (exp \<times> 'v) list" where
  "table_set [] x v = [(x, v)]"
| "table_set ((k, v') # d) x v =
     (if alpha_equivalent k x then (k, v) # d else (k, v') # table_set d x v)"

text \<open>
  A Python float is the rational number it denotes. \<open>rnd\<close> stands for the rounding of a
  rational number to the nearest float: the quotient and the sum of two floats are the exact
  quotient and sum, rounded. The cost model is stated for every rounding function.
\<close>

type_synonym rounding = "rat \<Rightarrow> rat"

record cm_state =
  cm_cardinalities :: "(exp \<times> exp) list"
  cm_assumptions :: "exp list"
  cm_secondaries :: rat
  cm_counter :: nat

function show_nat :: "nat \<Rightarrow> string" where
  "show_nat n =
     (if n < 10 then [''0123456789'' ! n]
      else show_nat (n div 10) @ [''0123456789'' ! (n mod 10)])"
  by pat_completeness auto
termination
  by (relation "measure id") auto

declare show_nat.simps [simp del]

text \<open>Modelled from the spec: \<open>fresh_var\<close> returns a variable with a name not used before.\<close>

definition fresh_name :: "nat \<Rightarrow> string" where
  "fresh_name n = ''_var'' @ show_nat n"

definition fresh_var :: "ty \<Rightarrow> cm_state \<Rightarrow> exp \<times> cm_state" where
  "fresh_var t s = (EVar (fresh_name (cm_counter s)) t, s\<lparr>cm_counter := Suc (cm_counter s)\<rparr>)"

definition add_assumption :: "exp \<Rightarrow> cm_state \<Rightarrow> cm_state" where
  "add_assumption a s = s\<lparr>cm_assumptions := cm_assumptions s @ [a]\<rparr>"

definition allocate :: "exp \<Rightarrow> cm_state \<Rightarrow> exp \<times> cm_state" where
  "allocate x s =
     (let (v, s1) = fresh_var TInt s
      in (v, s1\<lparr>cm_cardinalities := table_set (cm_cardinalities s1) x v\<rparr>))"

definition shrink_guard :: "exp \<Rightarrow> exp \<Rightarrow> exp" where
  "shrink_guard v cc =
     EBinOp (EBinOp v ''*'' (ENum 5 TInt) TInt) ''>='' (EBinOp cc ''*'' (ENum 4 TInt) TInt) TBool"

section \<open>Cardinality derivation\<close>

text \<open>
  \<open>CompositeCostModel.cardinality\<close>. The five structural cases come first, in the source's
  order; every other expression is looked up in the table and, when absent, given a
  fresh variable, with the assumptions of its kind recorded after the allocation.
  \<open>allocate\<close> is lines 274 and 275; \<open>shrink_guard\<close> is the formula of lines 280 to 282.
\<close>

fun cardinality :: "exp \<Rightarrow> cm_state \<Rightarrow> exp \<times> cm_state" where
  "cardinality (EEmptyList t) s = (ZERO, s)"
| "cardinality (ESingleton a t) s = (ONE, s)"
| "cardinality (EMap a f t) s = cardinality a s"
| "cardinality (EStateVar a t) s = cardinality a s"
| "cardinality (EBinOp a op b t) s =
     (if op = ''+'' then
        (let (c1, s1) = cardinality a s;
             (c2, s2) = cardinality b s1
         in (ESum [c1, c2], s2))
      else
        (case table_get (cm_cardinalities s) (EBinOp a op b t) of
           Some v \<Rightarrow> (v, s)
         | None \<Rightarrow>
             (let (v, s1) = allocate (EBinOp a op b t) s
              in if op = ''-'' then
                   (let (c1, s2) = cardinality a s1
                    in (v, add_assumption (EBinOp v ''<='' c1 TBool) s2))
                 else (v, s1))))"
| "cardinality (EFilter a p t) s =
     (case table_get (cm_cardinalities s) (EFilter a p t) of
        Some v \<Rightarrow> (v, s)
      | None \<Rightarrow>
          (let (v, s1) = allocate (EFilter a p t) s;
               (cc, s2) = cardinality a s1
           in (v, add_assumption (shrink_guard v cc) (add_assumption (EBinOp v ''<='' cc TBool) s2))))"
| "cardinality (EUnaryOp op a t) s =
     (case table_get (cm_cardinalities s) (EUnaryOp op a t) of
        Some v \<Rightarrow> (v, s)
      | None \<Rightarrow>
          (let (v, s1) = allocate (EUnaryOp op a t) s
           in if op = UOp_Distinct then
                (let (cc, s2) = cardinality a s1
                 in (v, add_assumption (shrink_guard v cc) (add_assumption (EBinOp v ''<='' cc TBool) s2)))
              else (v, s1)))"
| "cardinality (ECond c a b t) s =
     (case table_get (cm_cardinalities s) (ECond c a b t) of
        Some v \<Rightarrow> (v, s)
      | None \<Rightarrow>
          (let (v, s1) = allocate (ECond c a b t) s;
               (c1, s2) = cardinality a s1;
               (c2, s3) = cardinality b s2
           in (v, add_assumption (EAny [EEq v c1, EEq v c2]) s3)))"
| "cardinality x s =
     (case table_get (cm_cardinalities s) x of
        Some v \<Rightarrow> (v, s)
      | None \<Rightarrow> allocate x s)"

definition statecost :: "rounding \<Rightarrow> exp \<Rightarrow> rat" where
  "statecost rnd x = rnd (of_nat (size_e x) / 100)"

definition sizeof :: "exp \<Rightarrow> cm_state \<Rightarrow> exp \<times> cm_state" where
  "sizeof x s = (if is_collection (type_of x) then cardinality x s else (ONE, s))"


section \<open>The bottom-up fold\<close>

text \<open>
  Modelled from the spec: the fold utility \<open>BottomUpExplorer\<close> calls the rule named after
  the node's class when the visitor has one, and otherwise visits the children from left to
  right and hands the results to \<open>join\<close>. \<open>join\<close> (lines 355 to 360) is \<open>ZERO\<close> on a child
  that is no expression (an identifier, a number, an operator name) and \<open>ESum\<close> of \<open>ONE\<close> and
  the child costs on an expression. The rules \<open>visit_E...\<close> of the source are the equations
  of \<open>visit\<close> for their constructors; the remaining constructors take the generic path.
  \<open>lambda_apply\<close> is \<open>ELambda.apply_to\<close>.
\<close>

definition reduction_ops :: "string list" where
  "reduction_ops = [UOp_Sum, UOp_Distinct, UOp_AreUnique, UOp_All, UOp_Any, UOp_Length]"

definition lambda_apply :: "string \<Rightarrow> exp \<Rightarrow> exp \<Rightarrow> exp" where
  "lambda_apply x body arg = subst body [(x, arg)]"

definition per_element :: "exp \<Rightarrow> exp \<Rightarrow> exp \<Rightarrow> exp" where
  "per_element c1 k c2 = ESum [TWO, c1, EBinOp k ''*'' c2 TInt]"

function visit :: "rounding \<Rightarrow> exp \<Rightarrow> cm_state \<Rightarrow> exp \<times> cm_state" where
  "visit rnd (EVar x t) s = (ESum [ONE, ZERO], s)"
| "visit rnd (EBool b t) s = (ESum [ONE, ZERO], s)"
| "visit rnd (ENum n t) s = (ESum [ONE, ZERO], s)"
| "visit rnd (ECond c a b t) s =
     (let (c1, s1) = visit rnd c s;
          (c2, s2) = visit rnd a s1;
          (c3, s3) = visit rnd b s2
      in (ESum [ONE, c1, c2, c3], s3))"
| "visit rnd (EBinOp a op b t) s =
     (let (c1, s1) = visit rnd a s;
          (c2, s2) = visit rnd b s1
      in if op = BOp_In then
           (let (k2, s3) = cardinality b s2
            in (ESum [ONE, c1, c2, k2], s3))
         else if (op = ''=='' \<and> is_collection (type_of a)) \<or> (op = ''-'' \<and> is_collection t) then
           (let (k1, s3) = cardinality a s2;
                (k2, s4) = cardinality b s3
            in (ESum [ONE, c1, c2, EXTREME_COST, k1, k2], s4))
         else (ESum [ONE, c1, c2], s2))"
| "visit rnd (EUnaryOp op a t) s =
     (let (c1, s1) = visit rnd a s
      in if op \<in> set reduction_ops then
           (let (k, s2) = cardinality a s1
            in (ESum [ONE, c1, k], s2))
         else (ESum [ONE, c1], s1))"
| "visit rnd (EEmptyList t) s = (ESum [ONE], s)"
| "visit rnd (ESingleton a t) s =
     (let (c1, s1) = visit rnd a s in (ESum [ONE, c1], s1))"
| "visit rnd (ELambda x u b) s =
     (let (v, s1) = fresh_var u s in visit rnd (lambda_apply x b v) s1)"
| "visit rnd (EFilter a p t) s =
     (let (c1, s1) = visit rnd a s;
          (k, s2) = cardinality a s1;
          (c2, s3) = visit rnd p s2
      in (per_element c1 k c2, s3))"
| "visit rnd (EMap a f t) s =
     (let (c1, s1) = visit rnd a s;
          (k, s2) = cardinality a s1;
          (c2, s3) = visit rnd f s2
      in (per_element c1 k c2, s3))"
| "visit rnd (EFlatMap a f t) s = visit rnd (EMap a f Untyped) s"
| "visit rnd (EArgMin a f t) s =
     (let (c1, s1) = visit rnd a s;
          (k, s2) = cardinality a s1;
          (c2, s3) = visit rnd f s2
      in (per_element c1 k c2, s3))"
| "visit rnd (EArgMax a f t) s =
     (let (c1, s1) = visit rnd a s;
          (k, s2) = cardinality a s1;
          (c2, s3) = visit rnd f s2
      in (per_element c1 k c2, s3))"
| "visit rnd (EMapGet m k t) s =
     (let (c1, s1) = visit rnd m s;
          (c2, s2) = visit rnd k s1
      in (ESum [MILD_PENALTY, c1, c2], s2))"
| "visit rnd (EMakeMap2 a v t) s =
     (let (c1, s1) = visit rnd a s;
          (k, s2) = cardinality a s1;
          (c2, s3) = visit rnd v s2
      in (ESum [EXTREME_COST, c1, EBinOp k ''*'' c2 TInt], s3))"
| "visit rnd (EStateVar a t) s =
     (let s1 = s\<lparr>cm_secondaries := rnd (cm_secondaries s + statecost rnd a)\<rparr>;
          (k, s2) = sizeof a s1
      in (ESum [ONE, k], s2))"
| "visit rnd (EDropFront a t) s =
     (let (c1, s1) = visit rnd a s;
          (k, s2) = cardinality a s1
      in (ESum [MILD_PENALTY, c1, with_type k TInt], s2))"
| "visit rnd (EDropBack a t) s =
     (let (c1, s1) = visit rnd a s;
          (k, s2) = cardinality a s1
      in (ESum [MILD_PENALTY, c1, with_type k TInt], s2))"
  by pat_completeness auto

lemma size_e_subst:
  "\<forall>r \<in> snd ` set m. size_e r = 1 \<Longrightarrow> size_e (subst b m) = size_e b"
proof (induction b arbitrary: m)
  case (EVar x t)
  then show ?case
    by (auto split: option.splits dest!: map_of_SomeD)
next
  case (ELambda x u b)
  have "\<forall>r \<in> snd ` set (filter (\<lambda>kv. fst kv \<noteq> x) m). size_e r = 1"
    using ELambda.prems by auto
  then show ?case
    using ELambda.IH by simp
qed simp_all

definition visit_measure :: "exp \<times> cm_state \<Rightarrow> nat" where
  "visit_measure p = (case fst p of EFlatMap _ _ _ \<Rightarrow> 2 * size_e (fst p) + 1
                        | _ \<Rightarrow> 2 * size_e (fst p))"

lemma visit_measure_bounds:
  "2 * size_e x \<le> visit_measure (x, s)" "visit_measure (x, s) \<le> 2 * size_e x + 1"
  by (cases x; simp add: visit_measure_def)+

lemma visit_measure_lambda:
  assumes "(v, s1) = fresh_var u s"
  shows "visit_measure (lambda_apply x b v, s1) < visit_measure (ELambda x u b, s)"
proof -
  from assms have "v = EVar (fresh_name (cm_counter s)) u"
    by (simp add: fresh_var_def)
  then have "size_e (lambda_apply x b v) = size_e b"
    by (simp add: lambda_apply_def size_e_subst)
  then show ?thesis
    using visit_measure_bounds [of "lambda_apply x b v" s1]
      visit_measure_bounds [of "ELambda x u b" s] by simp
qed

termination visit
  apply (relation "measure (\<lambda>(rnd, x, s). visit_measure (x, s))")
  apply (simp_all add: visit_measure_lambda)
  apply (auto simp: visit_measure_def split: exp.splits)
  done

declare visit.simps [simp del]

section \<open>Costs\<close>

text \<open>
  The class \<open>Cost\<close>. \<open>e\<close> and \<open>pool\<close> may be \<open>None\<close> (\<open>Cost.ZERO\<close>); a pool is an integer.
  \<open>secondary\<close> is a Python float, the rational number it denotes; the comparisons of
  \<open>compare_to\<close> are those of the rational numbers. The constructor's two assertions are
  results of \<open>Cost\<close>.
\<close>

datatype error = AssertionError | SolverReportedUnknown | TypeError

type_synonym pool = int

text \<open>Modelled from the spec: the two pools of \<open>cozy.pools\<close>.\<close>

definition STATE_POOL :: pool where "STATE_POOL = 0"
definition RUNTIME_POOL :: pool where "RUNTIME_POOL = 1"

record cost =
  cost_e :: "exp option"
  cost_pool :: "pool option"
  formula :: exp
  secondary :: rat
  assumptions :: exp
  cardinalities :: "(exp \<times> exp) list"

definition Cost :: "exp option \<Rightarrow> pool option \<Rightarrow> exp \<Rightarrow> rat \<Rightarrow> exp \<Rightarrow> (exp \<times> exp) list
    \<Rightarrow> error + cost" where
  "Cost x p f sec asm cards =
     (if type_of f \<noteq> TInt then Inl AssertionError
      else if \<not> list_all (\<lambda>v. type_of v = TInt) (free_vars asm) then Inl AssertionError
      else Inr \<lparr>cost_e = x, cost_pool = p, formula = f, secondary = sec,
                assumptions = asm, cardinalities = cards\<rparr>)"

definition Cost_ZERO :: "error + cost" where
  "Cost_ZERO = Cost None None ZERO 0 T []"

section \<open>Cost assignment\<close>

text \<open>
  The two options of the module are parameters of \<open>cost\<close>. The process-wide counter of
  \<open>fresh_var\<close> goes in and comes out. In the runtime branch the loop of lines 377 and 378
  uses \<open>e\<close> as its loop variable: after the loop \<open>e\<close> is the last key of the table, when
  the table has one, and this is the value line 379 hands to \<open>Cost\<close>.
\<close>

record options =
  assume_large_cardinalities :: bool
  simple_cost_model :: bool

definition default_options :: options where
  "default_options = \<lparr>assume_large_cardinalities = True, simple_cost_model = False\<rparr>"

definition min_cardinality :: exp where
  "min_cardinality = ENum 1000 TInt"

fun assume_large :: "exp list \<Rightarrow> cm_state \<Rightarrow> cm_state" where
  "assume_large [] s = s"
| "assume_large (v # vs) s =
     (if is_collection (type_of v) then
        (let (k, s1) = cardinality v s
         in assume_large vs (add_assumption (EBinOp k ''>'' min_cardinality TBool) s1))
      else assume_large vs s)"

fun invert_cardinalities :: "(exp \<times> exp) list \<Rightarrow> exp \<Rightarrow> (exp \<times> exp) list
    \<Rightarrow> (exp \<times> exp) list \<times> exp" where
  "invert_cardinalities [] x invcard = (invcard, x)"
| "invert_cardinalities ((k, v) # rest) x invcard =
     invert_cardinalities rest k (od_set invcard v k)"

definition cost :: "rounding \<Rightarrow> options \<Rightarrow> exp \<Rightarrow> pool \<Rightarrow> nat \<Rightarrow> (error + cost) \<times> nat" where
  "cost rnd opts x p counter =
     (if simple_cost_model opts then
        (Cost (Some x) (Some p) ZERO (of_nat (size_e x)) T [], counter)
      else if p = RUNTIME_POOL then
        (let s0 = \<lparr>cm_cardinalities = [], cm_assumptions = [], cm_secondaries = 0,
                    cm_counter = counter\<rparr>;
             s1 = (if assume_large_cardinalities opts then assume_large (free_vars x) s0 else s0);
             s2 = s1\<lparr>cm_secondaries := 0\<rparr>;
             (f, s3) = visit rnd x s2;
             (invcard, x') = invert_cardinalities (cm_cardinalities s3) x []
         in (Cost (Some x') (Some p) f (cm_secondaries s3) (EAll (cm_assumptions s3)) invcard,
             cm_counter s3))
      else
        (Cost (Some x) (Some p) ZERO (statecost rnd x) T [], counter))"


section \<open>Evaluation of formulas\<close>

text \<open>
  Modelled from the spec: the evaluator of \<open>cozy.evaluation\<close>, restricted to the
  arithmetic and boolean fragment that cost formulas, assumptions and cardinality
  constraints are written in. A binding gives integers to variables; an expression outside
  the fragment, or a variable without a binding, has no value.
\<close>

datatype val = VInt int | VBool bool

fun binop :: "string \<Rightarrow> val \<Rightarrow> val \<Rightarrow> val option" where
  "binop op (VInt a) (VInt b) =
     (if op = ''+'' then Some (VInt (a + b))
      else if op = ''-'' then Some (VInt (a - b))
      else if op = ''*'' then Some (VInt (a * b))
      else if op = ''=='' then Some (VBool (a = b))
      else if op = ''!='' then Some (VBool (a \<noteq> b))
      else if op = ''<'' then Some (VBool (a < b))
      else if op = ''<='' then Some (VBool (a \<le> b))
      else if op = ''>'' then Some (VBool (a > b))
      else if op = ''>='' then Some (VBool (a \<ge> b))
      else None)"
| "binop op (VBool a) (VBool b) =
     (if op = BOp_And then Some (VBool (a \<and> b))
      else if op = BOp_Or then Some (VBool (a \<or> b))
      else if op = ''=>'' then Some (VBool (a \<longrightarrow> b))
      else if op = ''=='' then Some (VBool (a = b))
      else if op = ''!='' then Some (VBool (a \<noteq> b))
      else None)"
| "binop op _ _ = None"

fun evaluate :: "(string \<Rightarrow> int option) \<Rightarrow> exp \<Rightarrow> val option" where
  "evaluate env (ENum n _) = Some (VInt n)"
| "evaluate env (EBool b _) = Some (VBool b)"
| "evaluate env (EVar x _) = map_option VInt (env x)"
| "evaluate env (EBinOp a op b _) =
     (case evaluate env a of
        None \<Rightarrow> None
      | Some va \<Rightarrow> (case evaluate env b of None \<Rightarrow> None | Some vb \<Rightarrow> binop op va vb))"
| "evaluate env (EUnaryOp op a _) =
     (case evaluate env a of
        Some (VBool b) \<Rightarrow> (if op = UOp_Not then Some (VBool (\<not> b)) else None)
      | Some (VInt n) \<Rightarrow> (if op = ''-'' then Some (VInt (- n)) else None)
      | None \<Rightarrow> None)"
| "evaluate env (ECond c a b _) =
     (case evaluate env c of
        Some (VBool True) \<Rightarrow> evaluate env a
      | Some (VBool False) \<Rightarrow> evaluate env b
      | _ \<Rightarrow> None)"
| "evaluate env _ = None"

section \<open>The solver and the cardinality oracle\<close>

text \<open>
  The solver is outside the file. \<open>valid\<close> is the function \<open>cozy.solver.valid\<close> with its
  logic and its timeout in seconds; \<open>session_valid\<close> is the method \<open>valid\<close> of the
  \<open>IncrementalSolver\<close> that \<open>cardinality_le\<close> has as its default argument. Each answers
  \<open>Some b\<close>, or \<open>None\<close> when it raises \<open>SolverReportedUnknown\<close>. A function that calls the
  solver returns, next to its result, the list of the calls it made, in order. The model
  describes the body of \<open>cardinality_le\<close>; its \<open>lru_cache\<close> returns the stored answer of an
  earlier call with equal arguments without asking the solver again. The module constants
  \<open>incremental\<close> and \<open>use_indicators\<close> are \<open>False\<close>, and the model follows the branches they
  select.
\<close>

record smt =
  valid :: "string \<Rightarrow> nat \<Rightarrow> exp \<Rightarrow> bool option"
  session_valid :: "exp \<Rightarrow> bool option"

datatype call = ValidCall string nat exp | SessionCall exp

type_synonym 'a res = "(error + 'a) \<times> call list"

definition bind_res :: "'a res \<Rightarrow> ('a \<Rightarrow> 'b res) \<Rightarrow> 'b res" where
  "bind_res m f =
     (case m of
        (Inl err, l) \<Rightarrow> (Inl err, l)
      | (Inr x, l) \<Rightarrow> (case f x of (r, l') \<Rightarrow> (r, l @ l')))"

datatype le_result = LeFormula exp | LeAnswer bool

fun truthy :: "le_result \<Rightarrow> bool" where
  "truthy (LeAnswer b) = b"
| "truthy (LeFormula _) = True"

definition cardinality_le :: "exp \<Rightarrow> exp \<Rightarrow> exp \<Rightarrow> bool \<Rightarrow> (exp \<Rightarrow> bool option)
    \<Rightarrow> le_result res" where
  "cardinality_le c1 c2 asm as_f solver =
     (if type_of c1 \<noteq> type_of c2 then (Inl AssertionError, [])
      else (let f = EBinOp (ELen c1) ''<='' (ELen c2) TBool
            in if as_f then (Inr (LeFormula f), [])
               else (case solver (EImplies asm f) of
                       None \<Rightarrow> (Inl SolverReportedUnknown, [SessionCall (EImplies asm f)])
                     | Some b \<Rightarrow> (Inr (LeAnswer b), [SessionCall (EImplies asm f)]))))"

definition cardinality_le_implies_lt :: "exp \<Rightarrow> exp \<Rightarrow> exp \<Rightarrow> bool" where
  "cardinality_le_implies_lt c1 c2 asm = False"

section \<open>Comparison of costs\<close>

datatype ordering = WORSE | BETTER | UNORDERED

text \<open>
  \<open>order_inner\<close> is the loop of lines 92 to 110 for one \<open>(v1, c1)\<close>, \<open>order_outer\<close> the loop
  of line 90; both extend the list \<open>res\<close>.
\<close>

fun order_inner :: "(exp \<Rightarrow> bool option) \<Rightarrow> exp \<Rightarrow> exp \<Rightarrow> exp \<Rightarrow> (exp \<times> exp) list
    \<Rightarrow> exp list \<Rightarrow> (exp list) res" where
  "order_inner solver asm v1 c1 [] res = (Inr res, [])"
| "order_inner solver asm v1 c1 ((v2, c2) # rest) res =
     (if v1 = v2 \<or> type_of c1 \<noteq> type_of c2 then order_inner solver asm v1 c1 rest res
      else if alpha_equivalent c1 c2 then order_inner solver asm v1 c1 rest (res @ [EEq v1 v2])
      else bind_res (cardinality_le c1 c2 asm False solver) (\<lambda>le.
             if truthy le then
               (if cardinality_le_implies_lt c1 c2 asm
                then order_inner solver asm v1 c1 rest (res @ [EBinOp v1 ''<'' v2 TBool])
                else order_inner solver asm v1 c1 rest (res @ [EBinOp v1 ''<='' v2 TBool]))
             else order_inner solver asm v1 c1 rest res))"

fun order_outer :: "(exp \<Rightarrow> bool option) \<Rightarrow> exp \<Rightarrow> (exp \<times> exp) list \<Rightarrow> (exp \<times> exp) list
    \<Rightarrow> exp list \<Rightarrow> (exp list) res" where
  "order_outer solver asm items [] res = (Inr res, [])"
| "order_outer solver asm items ((v1, c1) # rest) res =
     bind_res (order_inner solver asm v1 c1 items (res @ [EBinOp v1 ''>='' ZERO TBool]))
       (\<lambda>res'. order_outer solver asm items rest res')"

definition merged_cardinalities :: "cost \<Rightarrow> cost \<Rightarrow> (exp \<times> exp) list" where
  "merged_cardinalities self other =
     od_update (od_update [] (cardinalities self)) (cardinalities other)"

definition order_cardinalities :: "smt \<Rightarrow> cost \<Rightarrow> cost \<Rightarrow> exp \<Rightarrow> exp res" where
  "order_cardinalities slv self other asm =
     (let items = merged_cardinalities self other
      in bind_res (order_outer (session_valid slv) asm items items [])
           (\<lambda>res. (Inr (EAll res), [])))"

definition real_vars :: "exp \<Rightarrow> (string \<times> exp) list" where
  "real_vars cards = map (\<lambda>v. (var_id v, EVar (var_id v) TReal)) (free_vars cards)"

definition always :: "smt \<Rightarrow> cost \<Rightarrow> string \<Rightarrow> cost \<Rightarrow> exp \<Rightarrow> exp option \<Rightarrow> bool res" where
  "always slv self op other asm cards_arg =
     bind_res (case cards_arg of
                 None \<Rightarrow> order_cardinalities slv self other asm
               | Some c \<Rightarrow> (Inr c, []))
       (\<lambda>cards.
          if is_ENum (formula self) \<and> is_ENum (formula other) then
            (case evaluate Map.empty (EBinOp (formula self) op (formula other) TBool) of
               Some (VBool b) \<Rightarrow> (Inr b, [])
             | _ \<Rightarrow> (Inl TypeError, []))
          else
            (let f = EImplies (EAll [assumptions self, assumptions other, cards])
                       (EBinOp (formula self) op (formula other) TBool)
             in case valid slv ''QF_LIA'' 1 f of
                  Some b \<Rightarrow> (Inr b, [ValidCall ''QF_LIA'' 1 f])
                | None \<Rightarrow>
                    (let f' = subst f (real_vars cards)
                     in case valid slv ''QF_NRA'' 5 f' of
                          Some b \<Rightarrow> (Inr b, [ValidCall ''QF_LIA'' 1 f, ValidCall ''QF_NRA'' 5 f'])
                        | None \<Rightarrow>
                            (Inr False, [ValidCall ''QF_LIA'' 1 f, ValidCall ''QF_NRA'' 5 f']))))"

definition compare_to :: "smt \<Rightarrow> cost \<Rightarrow> cost \<Rightarrow> exp \<Rightarrow> ordering res" where
  "compare_to slv self other asm =
     bind_res (order_cardinalities slv self other asm) (\<lambda>cards.
     bind_res (always slv self ''<='' other T (Some cards)) (\<lambda>o1.
     bind_res (always slv other ''<='' self T (Some cards)) (\<lambda>o2.
       (Inr (if o1 \<and> \<not> o2 then BETTER
             else if o2 \<and> \<not> o1 then WORSE
             else if \<not> o1 \<and> \<not> o2 then UNORDERED
             else (if secondary self > secondary other then WORSE
                   else if secondary self < secondary other then BETTER
                   else UNORDERED)), []))))"

definition always_worse_than :: "smt \<Rightarrow> cost \<Rightarrow> cost \<Rightarrow> exp \<Rightarrow> exp option \<Rightarrow> bool res" where
  "always_worse_than slv self other asm cards = always slv self ''>'' other asm cards"

definition always_better_than :: "smt \<Rightarrow> cost \<Rightarrow> cost \<Rightarrow> exp \<Rightarrow> exp option \<Rightarrow> bool res" where
  "always_better_than slv self other asm cards = always slv self ''<'' other asm cards"

definition sometimes_worse_than :: "smt \<Rightarrow> cost \<Rightarrow> cost \<Rightarrow> exp \<Rightarrow> exp option \<Rightarrow> bool res" where
  "sometimes_worse_than slv self other asm cards =
     bind_res (always slv self ''<='' other asm cards) (\<lambda>b. (Inr (\<not> b), []))"

definition sometimes_better_than :: "smt \<Rightarrow> cost \<Rightarrow> cost \<Rightarrow> exp \<Rightarrow> exp option \<Rightarrow> bool res" where
  "sometimes_better_than slv self other asm cards =
     bind_res (always slv self ''>='' other asm cards) (\<lambda>b. (Inr (\<not> b), []))"

section \<open>Notions used in the statements\<close>

text \<open>
  \<open>implication\<close> is the formula that \<open>always\<close> hands to the solver. \<open>bounded_valid\<close> is a
  solver for the concrete instances below: it evaluates a formula under a fixed list of
  bindings and never answers unknown. \<open>plain_cost\<close> builds a \<open>Cost\<close> without provenance.
\<close>

definition is_ValidCall :: "call \<Rightarrow> bool" where
  "is_ValidCall c = (case c of ValidCall _ _ _ \<Rightarrow> True | SessionCall _ \<Rightarrow> False)"

definition comparison_ops :: "string list" where
  "comparison_ops = [''<'', ''<='', ''>'', ''>='', ''=='', ''!='']"

definition compare_ints :: "string \<Rightarrow> int \<Rightarrow> int \<Rightarrow> bool" where
  "compare_ints op a b =
     (if op = ''<'' then a < b else if op = ''<='' then a \<le> b
      else if op = ''>'' then a > b else if op = ''>='' then a \<ge> b
      else if op = ''=='' then a = b else a \<noteq> b)"

definition implication :: "cost \<Rightarrow> string \<Rightarrow> cost \<Rightarrow> exp \<Rightarrow> exp" where
  "implication self op other cards =
     EImplies (EAll [assumptions self, assumptions other, cards])
       (EBinOp (formula self) op (formula other) TBool)"

definition bounded_valid :: "(string \<times> int) list list \<Rightarrow> exp \<Rightarrow> bool option" where
  "bounded_valid envs f =
     Some (list_all (\<lambda>env. evaluate (map_of env) f = Some (VBool True)) envs)"

definition sample_envs :: "(string \<times> int) list list" where
  "sample_envs = [[(''v'', 0), (''w'', 0)], [(''v'', 5), (''w'', 0)], [(''v'', 0), (''w'', 5)]]"

definition sample_smt :: smt where
  "sample_smt = \<lparr>valid = (\<lambda>logic timeout. bounded_valid sample_envs),
                  session_valid = (\<lambda>q. Some False)\<rparr>"

definition plain_cost :: "exp \<Rightarrow> rat \<Rightarrow> (exp \<times> exp) list \<Rightarrow> cost" where
  "plain_cost f sec cards =
     \<lparr>cost_e = None, cost_pool = None, formula = f, secondary = sec, assumptions = T,
      cardinalities = cards\<rparr>"

text \<open>
  \<open>le_query\<close> is the question of the cardinality oracle. \<open>unknown_then_true\<close> is a solver
  that answers unknown to every integer query and proves every real one. \<open>three_bags_a\<close> and
  \<open>three_bags_b\<close> are two costs with literal formulas and three cardinality variables
  between them.
\<close>

definition le_query :: "exp \<Rightarrow> exp \<Rightarrow> exp \<Rightarrow> exp" where
  "le_query asm c1 c2 = EImplies asm (EBinOp (ELen c1) ''<='' (ELen c2) TBool)"

definition unknown_then_true :: smt where
  "unknown_then_true =
     \<lparr>valid = (\<lambda>logic timeout f. if logic = ''QF_LIA'' then None else Some True),
      session_valid = (\<lambda>q. Some False)\<rparr>"

definition three_bags_a :: cost where
  "three_bags_a = plain_cost (ENum 1 TInt) 0
     [(EVar ''v1'' TInt, EVar ''xs'' (TBag TInt)), (EVar ''v2'' TInt, EVar ''ys'' (TBag TInt))]"

definition three_bags_b :: cost where
  "three_bags_b = plain_cost (ENum 2 TInt) 0 [(EVar ''v3'' TInt, EVar ''zs'' (TBag TInt))]"

text \<open>
  The joint constraints in the words of the specification: for every entry of the merged
  map the constraint \<open>v >= 0\<close>, followed, for every other entry of the same type, by the
  equality of the two variables when the expressions are alpha-equivalent and by \<open>v1 <= v2\<close>
  when the oracle proves it. \<open>oracle_queries\<close> lists the questions put to the oracle.
  \<open>xs_le_ys_oracle\<close> proves exactly that \<open>xs\<close> is no longer than \<open>ys\<close>.
\<close>

definition pair_constraint :: "(exp \<Rightarrow> bool option) \<Rightarrow> exp \<Rightarrow> exp \<times> exp \<Rightarrow> exp \<times> exp \<Rightarrow> exp list" where
  "pair_constraint solver asm p1 p2 =
     (if fst p1 = fst p2 \<or> type_of (snd p1) \<noteq> type_of (snd p2) then []
      else if alpha_equivalent (snd p1) (snd p2) then [EEq (fst p1) (fst p2)]
      else if solver (le_query asm (snd p1) (snd p2)) = Some True
           then [EBinOp (fst p1) ''<='' (fst p2) TBool]
      else [])"

definition pair_query :: "exp \<Rightarrow> exp \<times> exp \<Rightarrow> exp \<times> exp \<Rightarrow> exp list" where
  "pair_query asm p1 p2 =
     (if fst p1 = fst p2 \<or> type_of (snd p1) \<noteq> type_of (snd p2)
         \<or> alpha_equivalent (snd p1) (snd p2) then []
      else [le_query asm (snd p1) (snd p2)])"

definition joint_constraints :: "(exp \<Rightarrow> bool option) \<Rightarrow> exp \<Rightarrow> (exp \<times> exp) list \<Rightarrow> exp list" where
  "joint_constraints solver asm items =
     concat (map (\<lambda>p1. EBinOp (fst p1) ''>='' ZERO TBool
                        # concat (map (pair_constraint solver asm p1) items)) items)"

definition oracle_queries :: "exp \<Rightarrow> (exp \<times> exp) list \<Rightarrow> exp list" where
  "oracle_queries asm items = concat (map (\<lambda>p1. concat (map (pair_query asm p1) items)) items)"

definition is_strict :: "exp \<Rightarrow> bool" where
  "is_strict x = (case x of EBinOp _ op _ _ \<Rightarrow> op = ''<'' | _ \<Rightarrow> False)"

definition xs_le_ys_oracle :: smt where
  "xs_le_ys_oracle =
     \<lparr>valid = (\<lambda>logic timeout f. None),
      session_valid = (\<lambda>q. Some (q = le_query T (EVar ''xs'' (TBag TInt))
                                              (EVar ''ys'' (TBag TInt))))\<rparr>"

definition two_bags_a :: cost where
  "two_bags_a = plain_cost ZERO 0
     [(EVar ''v1'' TInt, EVar ''xs'' (TBag TInt)), (EVar ''v2'' TInt, EVar ''ys'' (TBag TInt))]"

definition two_bags_b :: cost where
  "two_bags_b = plain_cost ZERO 0 [(EVar ''v3'' TInt, EVar ''xs'' (TBag TInt))]"

text \<open>
  \<open>structural\<close> holds of the five kinds of expression whose cardinality is derived from
  their parts. \<open>empty_state n\<close> is the scratch state at the start of a runtime-pool call
  when the counter of fresh names stands at \<open>n\<close>. \<open>filter_x\<close> and \<open>filter_y\<close> are the same
  filter of \<open>xs\<close> written with two names for the bound variable.
\<close>

definition structural :: "exp \<Rightarrow> bool" where
  "structural x =
     (case x of EEmptyList _ \<Rightarrow> True | ESingleton _ _ \<Rightarrow> True | EMap _ _ _ \<Rightarrow> True
      | EStateVar _ _ \<Rightarrow> True | EBinOp _ op _ _ \<Rightarrow> op = ''+'' | _ \<Rightarrow> False)"

definition empty_state :: "nat \<Rightarrow> cm_state" where
  "empty_state n = \<lparr>cm_cardinalities = [], cm_assumptions = [], cm_secondaries = 0,
                      cm_counter = n\<rparr>"

definition filter_x :: exp where
  "filter_x = EFilter (EVar ''xs'' (TBag TInt))
     (ELambda ''x'' TInt (EBinOp (EVar ''x'' TInt) ''>'' (ENum 0 TInt) TBool)) (TBag TInt)"

definition filter_y :: exp where
  "filter_y = EFilter (EVar ''xs'' (TBag TInt))
     (ELambda ''y'' TInt (EBinOp (EVar ''y'' TInt) ''>'' (ENum 0 TInt) TBool)) (TBag TInt)"

text \<open>
  \<open>ab\<close>, \<open>bc\<close> and \<open>ac\<close> project a list of triples of bound names to the three lists of
  pairs that relate the first, second and third of three expressions; \<open>flip\<close> swaps the two
  sides of a list of pairs.
\<close>

definition ab :: "(string \<times> string \<times> string) list \<Rightarrow> (string \<times> string) list" where
  "ab m = map (\<lambda>p. (fst p, fst (snd p))) m"
definition bc :: "(string \<times> string \<times> string) list \<Rightarrow> (string \<times> string) list" where
  "bc m = map (\<lambda>p. (fst (snd p), snd (snd p))) m"
definition ac :: "(string \<times> string \<times> string) list \<Rightarrow> (string \<times> string) list" where
  "ac m = map (\<lambda>p. (fst p, snd (snd p))) m"

definition flip :: "(string \<times> string) list \<Rightarrow> (string \<times> string) list" where
  "flip m = map (\<lambda>p. (snd p, fst p)) m"

text \<open>
\<open>int_value\<close> is the value of an expression when it is an integer. \<open>sum_opt\<close> adds a list
  of values, each of which may be missing. \<open>arith\<close> holds of the integer terms built from
  literals, integer variables, sums and products; \<open>int_vars\<close> of the expressions whose
  variables all have the type of integers; \<open>state_ok\<close> of a scratch state whose table holds
  only such terms and whose assumptions mention only such variables.
\<close>

definition int_value :: "(string \<Rightarrow> int option) \<Rightarrow> exp \<Rightarrow> int option" where
  "int_value env x = (case evaluate env x of Some (VInt n) \<Rightarrow> Some n | _ \<Rightarrow> None)"

fun sum_opt :: "int option list \<Rightarrow> int option" where
  "sum_opt [] = Some 0"
| "sum_opt (None # xs) = None"
| "sum_opt (Some a # xs) = map_option ((+) a) (sum_opt xs)"

fun arith :: "exp \<Rightarrow> bool" where
  "arith (ENum n t) = (t = TInt)"
| "arith (EVar x t) = (t = TInt)"
| "arith (EBinOp a op b t) = ((op = ''+'' \<or> op = ''*'') \<and> t = TInt \<and> arith a \<and> arith b)"
| "arith _ = False"

definition int_vars :: "exp \<Rightarrow> bool" where
  "int_vars a = list_all (\<lambda>v. type_of v = TInt) (fv a)"

definition state_ok :: "cm_state \<Rightarrow> bool" where
  "state_ok s = (list_all (\<lambda>kv. arith (snd kv)) (cm_cardinalities s)
                 \<and> list_all int_vars (cm_assumptions s))"

section \<open>Results\<close>

subsection \<open>The comparison table of \<open>compare_to\<close>\<close>

lemma bind_res_Inr [simp]: "bind_res (Inr x, l) f = (case f x of (r, l') \<Rightarrow> (r, l @ l'))"
  by (simp add: bind_res_def)

lemma bind_res_Inl [simp]: "bind_res (Inl err, l) f = (Inl err, l)"
  by (simp add: bind_res_def)

lemma evaluate_literals:
  assumes "op \<in> set comparison_ops" "is_ENum a" "is_ENum b"
  shows "evaluate env (EBinOp a op b t) = Some (VBool (compare_ints op (num_val a) (num_val b)))"
  using assms by (cases a; cases b) (auto simp: comparison_ops_def compare_ints_def)

lemma always_literals:
  assumes "op \<in> set comparison_ops" "is_ENum (formula a)" "is_ENum (formula b)"
  shows "always slv a op b asm (Some cards) =
           (Inr (compare_ints op (num_val (formula a)) (num_val (formula b))), [])"
  using assms evaluate_literals [OF assms, of Map.empty TBool]
  by (simp add: always_def del: evaluate.simps)

lemma always_solver:
  assumes "\<not> (is_ENum (formula a) \<and> is_ENum (formula b))"
  shows "always slv a op b asm (Some cards) =
     (case valid slv ''QF_LIA'' 1 (implication a op b cards) of
        Some r \<Rightarrow> (Inr r, [ValidCall ''QF_LIA'' 1 (implication a op b cards)])
      | None \<Rightarrow>
          (Inr (case valid slv ''QF_NRA'' 5 (subst (implication a op b cards) (real_vars cards)) of
                  Some r \<Rightarrow> r | None \<Rightarrow> False),
           [ValidCall ''QF_LIA'' 1 (implication a op b cards),
            ValidCall ''QF_NRA'' 5 (subst (implication a op b cards) (real_vars cards))]))"
  using assms by (auto simp: always_def implication_def Let_def split: option.splits)

lemma always_supplied_returns:
  assumes "op \<in> set comparison_ops"
  shows "\<exists>r l. always slv a op b asm (Some cards) = (Inr r, l) \<and> length l \<le> 2
            \<and> list_all is_ValidCall l"
proof (cases "is_ENum (formula a) \<and> is_ENum (formula b)")
  case True
  then show ?thesis using always_literals [OF assms] by simp
next
  case False
  then show ?thesis
    by (simp add: always_solver is_ValidCall_def split: option.splits)
qed

text \<open>
  Claim C1. \<open>compare_to\<close> computes the joint constraints once (the calls of the cardinality
  oracle are the first part \<open>l0\<close> of its log, and the two calls of \<open>always\<close> that follow ask
  only \<open>valid\<close>), asks \<open>always\<close> with \<open><=\<close> in both directions with these constraints, and
  answers BETTER when only the first direction is proved, WORSE when only the second is,
  UNORDERED when neither is, and otherwise compares the secondaries: WORSE when the first
  is greater, BETTER when it is smaller, UNORDERED when they are equal. A failure of the
  oracle is passed on.
\<close>

theorem compare_to_cases:
  "(case order_cardinalities slv c1 c2 asm of
      (Inl err, l0) \<Rightarrow> compare_to slv c1 c2 asm = (Inl err, l0)
    | (Inr cards, l0) \<Rightarrow>
        (\<exists>o1 l1 o2 l2 v.
           always slv c1 ''<='' c2 T (Some cards) = (Inr o1, l1) \<and>
           always slv c2 ''<='' c1 T (Some cards) = (Inr o2, l2) \<and>
           list_all is_ValidCall (l1 @ l2) \<and>
           compare_to slv c1 c2 asm = (Inr v, l0 @ l1 @ l2) \<and>
           (o1 \<and> \<not> o2 \<longrightarrow> v = BETTER) \<and>
           (o2 \<and> \<not> o1 \<longrightarrow> v = WORSE) \<and>
           (\<not> o1 \<and> \<not> o2 \<longrightarrow> v = UNORDERED) \<and>
           (o1 \<and> o2 \<and> secondary c1 > secondary c2 \<longrightarrow> v = WORSE) \<and>
           (o1 \<and> o2 \<and> secondary c1 < secondary c2 \<longrightarrow> v = BETTER) \<and>
           (o1 \<and> o2 \<and> secondary c1 = secondary c2 \<longrightarrow> v = UNORDERED)))"
proof (cases "order_cardinalities slv c1 c2 asm")
  case (Pair r l0)
  show ?thesis
  proof (cases r)
    case (Inl err)
    with Pair show ?thesis by (simp add: compare_to_def)
  next
    case (Inr cards)
    have le: "''<='' \<in> set comparison_ops" by (simp add: comparison_ops_def)
    obtain o1 l1 where a1: "always slv c1 ''<='' c2 T (Some cards) = (Inr o1, l1)"
      and v1: "list_all is_ValidCall l1"
      using always_supplied_returns [OF le] by blast
    obtain o2 l2 where a2: "always slv c2 ''<='' c1 T (Some cards) = (Inr o2, l2)"
      and v2: "list_all is_ValidCall l2"
      using always_supplied_returns [OF le] by blast
    from Pair Inr a1 a2 v1 v2 show ?thesis
      by (auto simp: compare_to_def)
  qed
qed


lemma order_cardinalities_empty:
  "cardinalities a = [] \<Longrightarrow> cardinalities b = [] \<Longrightarrow>
   order_cardinalities slv a b asm = (Inr T, [])"
  by (simp add: order_cardinalities_def merged_cardinalities_def EAll_def)

theorem compare_to_cases_witness:
  "compare_to sample_smt (plain_cost (EVar ''v'' TInt) 0 [])
     (plain_cost (EBinOp (EVar ''v'' TInt) ''+'' (ENum 1 TInt) TInt) 0 []) T
   = (Inr BETTER,
      [ValidCall ''QF_LIA'' 1
         (EImplies T (EBinOp (EVar ''v'' TInt) ''<=''
            (EBinOp (EVar ''v'' TInt) ''+'' (ENum 1 TInt) TInt) TBool)),
       ValidCall ''QF_LIA'' 1
         (EImplies T (EBinOp (EBinOp (EVar ''v'' TInt) ''+'' (ENum 1 TInt) TInt) ''<=''
            (EVar ''v'' TInt) TBool))])"
proof -
  let ?a = "plain_cost (EVar ''v'' TInt) 0 []"
  let ?b = "plain_cost (EBinOp (EVar ''v'' TInt) ''+'' (ENum 1 TInt) TInt) 0 []"
  have oc: "order_cardinalities sample_smt ?a ?b T = (Inr T, [])"
    by (rule order_cardinalities_empty) (simp_all add: plain_cost_def)
  have imp1: "implication ?a ''<='' ?b T = EImplies T (EBinOp (EVar ''v'' TInt) ''<=''
            (EBinOp (EVar ''v'' TInt) ''+'' (ENum 1 TInt) TInt) TBool)"
    by (simp add: implication_def plain_cost_def EAll_def)
  have imp2: "implication ?b ''<='' ?a T = EImplies T
        (EBinOp (EBinOp (EVar ''v'' TInt) ''+'' (ENum 1 TInt) TInt) ''<='' (EVar ''v'' TInt) TBool)"
    by (simp add: implication_def plain_cost_def EAll_def)
  have ne: "\<not> (is_ENum (formula ?a) \<and> is_ENum (formula ?b))"
    "\<not> (is_ENum (formula ?b) \<and> is_ENum (formula ?a))"
    by (simp_all add: plain_cost_def)
  have a1: "always sample_smt ?a ''<='' ?b T (Some T) =
      (Inr True, [ValidCall ''QF_LIA'' 1 (implication ?a ''<='' ?b T)])"
    using always_solver [OF ne(1), of sample_smt "''<=''" T T] unfolding imp1
    by (simp add: sample_smt_def bounded_valid_def sample_envs_def EImplies_def T_def op_defs)
  have a2: "always sample_smt ?b ''<='' ?a T (Some T) =
      (Inr False, [ValidCall ''QF_LIA'' 1 (implication ?b ''<='' ?a T)])"
    using always_solver [OF ne(2), of sample_smt "''<=''" T T] unfolding imp2
    by (simp add: sample_smt_def bounded_valid_def sample_envs_def EImplies_def T_def op_defs)
  show ?thesis
    using compare_to_cases [of sample_smt ?a ?b T] oc a1 a2
    by (auto simp: imp1 imp2)
qed

subsection \<open>The cardinality oracle\<close>

text \<open>
  Claim C3. For two expressions of the same type, \<open>cardinality_le c1 c2 assumptions\<close> asks
  the solver one question, whether \<open>assumptions\<close> implies \<open>len c1 <= len c2\<close>, and returns the
  solver's answer to it (\<open>SolverReportedUnknown\<close> when the solver raises it). The formula
  compares the two lengths; no element of the collections occurs in it. For expressions
  of different types the assertion fails before any question is asked.
\<close>

theorem cardinality_le_single_query:
  "(type_of c1 = type_of c2 \<longrightarrow>
      cardinality_le c1 c2 asm False solver =
        ((case solver (EImplies asm (EBinOp (ELen c1) ''<='' (ELen c2) TBool)) of
            None \<Rightarrow> Inl SolverReportedUnknown
          | Some b \<Rightarrow> Inr (LeAnswer b)),
         [SessionCall (EImplies asm (EBinOp (ELen c1) ''<='' (ELen c2) TBool))]))
   \<and> (type_of c1 \<noteq> type_of c2 \<longrightarrow>
      cardinality_le c1 c2 asm as_f solver = (Inl AssertionError, []))"
  by (simp add: cardinality_le_def split: option.splits)

theorem cardinality_le_single_query_witness:
  "cardinality_le (EVar ''xs'' (TBag TInt)) (EVar ''ys'' (TBag TInt)) T False (\<lambda>q. Some True)
     = (Inr (LeAnswer True),
        [SessionCall (EImplies T (EBinOp (ELen (EVar ''xs'' (TBag TInt))) ''<=''
           (ELen (EVar ''ys'' (TBag TInt))) TBool))])
   \<and> cardinality_le (EVar ''xs'' (TBag TInt)) (EVar ''zs'' (TBag TBool)) T False (\<lambda>q. Some True)
     = (Inl AssertionError, [])"
  using cardinality_le_single_query [of "EVar ''xs'' (TBag TInt)" "EVar ''ys'' (TBag TInt)" T
      "\<lambda>q. Some True" False]
    cardinality_le_single_query [of "EVar ''xs'' (TBag TInt)" "EVar ''zs'' (TBag TBool)" T
      "\<lambda>q. Some True" False]
  by simp

subsection \<open>The solver calls of \<open>always\<close>\<close>

lemma real_vars_subst:
  assumes "v \<in> set (free_vars cards)"
  shows "subst (EVar (var_id v) t) (real_vars cards) = EVar (var_id v) TReal"
proof -
  have "map_of (map (\<lambda>v. (var_id v, EVar (var_id v) TReal)) vs) (var_id v)
          = Some (EVar (var_id v) TReal)" if "v \<in> set vs" for vs
    using that by (induction vs) auto
  with assms show ?thesis
    by (simp add: real_vars_def)
qed

text \<open>
  Claim C2, as the code has it. Called with the joint constraints, as \<open>compare_to\<close> calls
  it, and with a comparison operator, \<open>always\<close> returns a boolean, raises nothing and asks
  the solver at most twice: when both formulas are numeric literals it compares them without
  any call; otherwise it asks \<open>valid\<close> for the implication under \<open>QF_LIA\<close> with a timeout of
  one second, and when that answer is unknown it asks once more, under \<open>QF_NRA\<close> with five
  seconds, for the implication in which every free variable of the constraints has the type
  real; a second unknown gives \<open>False\<close>. Called without the constraints, it first computes
  them with \<open>order_cardinalities\<close> and then goes on in the same way.
\<close>

theorem always_supplied_constraints:
  assumes "op \<in> set comparison_ops"
  shows "(is_ENum (formula a) \<and> is_ENum (formula b) \<longrightarrow>
            always slv a op b asm (Some cards) =
              (Inr (compare_ints op (num_val (formula a)) (num_val (formula b))), []))
       \<and> (\<not> (is_ENum (formula a) \<and> is_ENum (formula b)) \<longrightarrow>
            always slv a op b asm (Some cards) =
              (case valid slv ''QF_LIA'' 1 (implication a op b cards) of
                 Some r \<Rightarrow> (Inr r, [ValidCall ''QF_LIA'' 1 (implication a op b cards)])
               | None \<Rightarrow>
                   (Inr (case valid slv ''QF_NRA'' 5
                                 (subst (implication a op b cards) (real_vars cards)) of
                           Some r \<Rightarrow> r | None \<Rightarrow> False),
                    [ValidCall ''QF_LIA'' 1 (implication a op b cards),
                     ValidCall ''QF_NRA'' 5
                       (subst (implication a op b cards) (real_vars cards))])))
       \<and> (\<exists>r l. always slv a op b asm (Some cards) = (Inr r, l) \<and> length l \<le> 2
                  \<and> list_all is_ValidCall l)
       \<and> (\<forall>v \<in> set (free_vars cards). \<forall>t.
              subst (EVar (var_id v) t) (real_vars cards) = EVar (var_id v) TReal)
       \<and> always slv a op b asm None =
            bind_res (order_cardinalities slv a b asm)
              (\<lambda>cards. always slv a op b asm (Some cards))"
proof -
  have "always slv a op b asm None =
      bind_res (order_cardinalities slv a b asm) (\<lambda>cards. always slv a op b asm (Some cards))"
    by (cases "order_cardinalities slv a b asm" rule: prod.exhaust [case_names Pair];
        cases "fst (order_cardinalities slv a b asm)")
      (auto simp: always_def)
  then show ?thesis
    using always_literals [OF assms] always_solver always_supplied_returns [OF assms]
      real_vars_subst
    by blast
qed

theorem always_supplied_constraints_witness:
  "always unknown_then_true (plain_cost (EVar ''v'' TInt) 0 []) ''<=''
       (plain_cost (ENum 1 TInt) 0 []) T (Some (EBinOp (EVar ''v'' TInt) ''>='' ZERO TBool))
     = (Inr True,
        [ValidCall ''QF_LIA'' 1
           (EImplies (EBinOp (EVar ''v'' TInt) ''>='' ZERO TBool)
              (EBinOp (EVar ''v'' TInt) ''<='' (ENum 1 TInt) TBool)),
         ValidCall ''QF_NRA'' 5
           (EImplies (EBinOp (EVar ''v'' TReal) ''>='' ZERO TBool)
              (EBinOp (EVar ''v'' TReal) ''<='' (ENum 1 TInt) TBool))])
   \<and> always unknown_then_true (plain_cost (ENum 3 TInt) 0 []) ''<=''
       (plain_cost (ENum 1 TInt) 0 []) T (Some T) = (Inr False, [])"
proof -
  have le: "''<='' \<in> set comparison_ops"
    by (simp add: comparison_ops_def)
  show ?thesis
    using always_supplied_constraints [OF le, of "plain_cost (EVar ''v'' TInt) 0 []"
        "plain_cost (ENum 1 TInt) 0 []" unknown_then_true T
        "EBinOp (EVar ''v'' TInt) ''>='' ZERO TBool"]
      always_supplied_constraints [OF le, of "plain_cost (ENum 3 TInt) 0 []"
        "plain_cost (ENum 1 TInt) 0 []" unknown_then_true T T]
    by (simp add: plain_cost_def unknown_then_true_def implication_def EAll_def T_def F_def
        EImplies_def real_vars_def free_vars_def ZERO_def compare_ints_def
        build_balanced_tree.simps [of _ _ "[_]"])
qed

text \<open>
  Without the constraints, \<open>always\<close> on two costs with literal formulas asks the cardinality
  oracle six questions before it compares the literals.
\<close>

theorem always_literals_ask_oracle:
  "always sample_smt three_bags_a ''<='' three_bags_b T None =
     (Inr True,
      [SessionCall (le_query T (EVar ''xs'' (TBag TInt)) (EVar ''ys'' (TBag TInt))),
       SessionCall (le_query T (EVar ''xs'' (TBag TInt)) (EVar ''zs'' (TBag TInt))),
       SessionCall (le_query T (EVar ''ys'' (TBag TInt)) (EVar ''xs'' (TBag TInt))),
       SessionCall (le_query T (EVar ''ys'' (TBag TInt)) (EVar ''zs'' (TBag TInt))),
       SessionCall (le_query T (EVar ''zs'' (TBag TInt)) (EVar ''xs'' (TBag TInt))),
       SessionCall (le_query T (EVar ''zs'' (TBag TInt)) (EVar ''ys'' (TBag TInt)))])
   \<and> is_ENum (formula three_bags_a) \<and> is_ENum (formula three_bags_b)"
  by (simp add: always_def order_cardinalities_def merged_cardinalities_def three_bags_a_def
      three_bags_b_def plain_cost_def sample_smt_def cardinality_le_def le_query_def
      alpha_equivalent_def cardinality_le_implies_lt_def EAll_def T_def F_def ZERO_def)

subsection \<open>The joint constraints of \<open>order_cardinalities\<close>\<close>

lemma order_inner_result:
  assumes "\<forall>q \<in> set (concat (map (pair_query asm (v1, c1)) rest)). solver q \<noteq> None"
  shows "order_inner solver asm v1 c1 rest res =
           (Inr (res @ concat (map (pair_constraint solver asm (v1, c1)) rest)),
            map SessionCall (concat (map (pair_query asm (v1, c1)) rest)))"
  using assms
proof (induction rest arbitrary: res)
  case Nil
  then show ?case by simp
next
  case (Cons p rest)
  obtain v2 c2 where p: "p = (v2, c2)" by (cases p)
  have rest: "\<forall>q \<in> set (concat (map (pair_query asm (v1, c1)) rest)). solver q \<noteq> None"
    using Cons.prems by simp
  note IH = Cons.IH [OF rest]
  show ?case
  proof (cases "v1 = v2 \<or> type_of c1 \<noteq> type_of c2")
    case True
    then show ?thesis
      using IH by (auto simp: p pair_constraint_def pair_query_def)
  next
    case skip: False
    show ?thesis
    proof (cases "alpha_equivalent c1 c2")
      case True
      then show ?thesis
        using IH skip by (simp add: p pair_constraint_def pair_query_def)
    next
      case False
      have "solver (le_query asm c1 c2) \<noteq> None"
        using Cons.prems skip False by (simp add: p pair_query_def)
      then obtain b where b: "solver (le_query asm c1 c2) = Some b"
        by blast
      then have le: "cardinality_le c1 c2 asm False solver =
          (Inr (LeAnswer b), [SessionCall (le_query asm c1 c2)])"
        using skip by (simp add: cardinality_le_def le_query_def)
      show ?thesis
        using IH skip False b
        by (simp add: p le pair_constraint_def pair_query_def cardinality_le_implies_lt_def)
    qed
  qed
qed

lemma order_outer_result:
  assumes "\<forall>q \<in> set (concat (map (\<lambda>p1. concat (map (pair_query asm p1) items)) rest)).
             solver q \<noteq> None"
  shows "order_outer solver asm items rest res =
           (Inr (res @ concat (map (\<lambda>p1. EBinOp (fst p1) ''>='' ZERO TBool
                        # concat (map (pair_constraint solver asm p1) items)) rest)),
            map SessionCall (concat (map (\<lambda>p1. concat (map (pair_query asm p1) items)) rest)))"
  using assms
proof (induction rest arbitrary: res)
  case Nil
  then show ?case by simp
next
  case (Cons p rest)
  obtain v1 c1 where p: "p = (v1, c1)" by (cases p)
  have inner: "\<forall>q \<in> set (concat (map (pair_query asm (v1, c1)) items)). solver q \<noteq> None"
    using Cons.prems by (simp add: p)
  have rest: "\<forall>q \<in> set (concat (map (\<lambda>p1. concat (map (pair_query asm p1) items)) rest)).
      solver q \<noteq> None"
    using Cons.prems by simp
  show ?case
    by (simp add: p order_inner_result [OF inner] Cons.IH [OF rest])
qed

lemma order_cardinalities_result:
  assumes "\<forall>q \<in> set (oracle_queries asm (merged_cardinalities a b)). session_valid slv q \<noteq> None"
  shows "order_cardinalities slv a b asm =
           (Inr (EAll (joint_constraints (session_valid slv) asm (merged_cardinalities a b))),
            map SessionCall (oracle_queries asm (merged_cardinalities a b)))"
  using assms
  by (simp add: order_cardinalities_def Let_def joint_constraints_def oracle_queries_def
      order_outer_result)

lemma joint_constraints_not_strict:
  "x \<in> set (joint_constraints solver asm items) \<Longrightarrow> \<not> is_strict x"
  by (auto simp: joint_constraints_def pair_constraint_def is_strict_def EEq_def
      split: if_splits)

lemma pair_in_joint_constraints:
  assumes "p1 \<in> set items" "p2 \<in> set items" "x \<in> set (pair_constraint solver asm p1 p2)"
  shows "x \<in> set (joint_constraints solver asm items)"
proof -
  have "x \<in> set (concat (map (pair_constraint solver asm p1) items))"
    using assms(2,3) by auto
  then show ?thesis
    unfolding joint_constraints_def using assms(1) by auto
qed

text \<open>
  Claim C4. When the oracle answers the questions it is asked, \<open>order_cardinalities\<close> returns
  the conjunction of a list of constraints in which every variable of the merged maps is
  asserted non-negative, two distinct variables are asserted equal when their expressions
  have the same type and are alpha-equivalent, and \<open>v1 <= v2\<close> is asserted when the oracle
  proves that the first expression is no longer than the second. No strict inequality is
  in the list: \<open>cardinality_le_implies_lt\<close> is \<open>False\<close> for all arguments.
\<close>

theorem order_cardinalities_constraints:
  assumes "\<forall>q \<in> set (oracle_queries asm (merged_cardinalities a b)). session_valid slv q \<noteq> None"
  shows "\<exists>res. order_cardinalities slv a b asm =
             (Inr (EAll res), map SessionCall (oracle_queries asm (merged_cardinalities a b)))
       \<and> res = joint_constraints (session_valid slv) asm (merged_cardinalities a b)
       \<and> (\<forall>p \<in> set (merged_cardinalities a b). EBinOp (fst p) ''>='' ZERO TBool \<in> set res)
       \<and> (\<forall>p1 \<in> set (merged_cardinalities a b). \<forall>p2 \<in> set (merged_cardinalities a b).
             fst p1 \<noteq> fst p2 \<and> type_of (snd p1) = type_of (snd p2)
               \<and> alpha_equivalent (snd p1) (snd p2)
             \<longrightarrow> EEq (fst p1) (fst p2) \<in> set res)
       \<and> (\<forall>p1 \<in> set (merged_cardinalities a b). \<forall>p2 \<in> set (merged_cardinalities a b).
             fst p1 \<noteq> fst p2 \<and> type_of (snd p1) = type_of (snd p2)
               \<and> \<not> alpha_equivalent (snd p1) (snd p2)
               \<and> session_valid slv (le_query asm (snd p1) (snd p2)) = Some True
             \<longrightarrow> EBinOp (fst p1) ''<='' (fst p2) TBool \<in> set res)
       \<and> (\<forall>x \<in> set res. \<not> is_strict x)
       \<and> (\<forall>c1 c2. \<not> cardinality_le_implies_lt c1 c2 asm)"
proof -
  let ?items = "merged_cardinalities a b"
  let ?res = "joint_constraints (session_valid slv) asm ?items"
  have 1: "\<forall>p \<in> set ?items. EBinOp (fst p) ''>='' ZERO TBool \<in> set ?res"
    by (auto simp: joint_constraints_def)
  have 2: "\<forall>p1 \<in> set ?items. \<forall>p2 \<in> set ?items.
             fst p1 \<noteq> fst p2 \<and> type_of (snd p1) = type_of (snd p2)
               \<and> alpha_equivalent (snd p1) (snd p2)
             \<longrightarrow> EEq (fst p1) (fst p2) \<in> set ?res"
  proof (intro ballI impI)
    fix p1 p2
    assume "p1 \<in> set ?items" "p2 \<in> set ?items"
      and "fst p1 \<noteq> fst p2 \<and> type_of (snd p1) = type_of (snd p2)
             \<and> alpha_equivalent (snd p1) (snd p2)"
    then show "EEq (fst p1) (fst p2) \<in> set ?res"
      by (intro pair_in_joint_constraints [of p1 _ p2]) (simp_all add: pair_constraint_def)
  qed
  have 3: "\<forall>p1 \<in> set ?items. \<forall>p2 \<in> set ?items.
             fst p1 \<noteq> fst p2 \<and> type_of (snd p1) = type_of (snd p2)
               \<and> \<not> alpha_equivalent (snd p1) (snd p2)
               \<and> session_valid slv (le_query asm (snd p1) (snd p2)) = Some True
             \<longrightarrow> EBinOp (fst p1) ''<='' (fst p2) TBool \<in> set ?res"
  proof (intro ballI impI)
    fix p1 p2
    assume "p1 \<in> set ?items" "p2 \<in> set ?items"
      and "fst p1 \<noteq> fst p2 \<and> type_of (snd p1) = type_of (snd p2)
             \<and> \<not> alpha_equivalent (snd p1) (snd p2)
             \<and> session_valid slv (le_query asm (snd p1) (snd p2)) = Some True"
    then show "EBinOp (fst p1) ''<='' (fst p2) TBool \<in> set ?res"
      by (intro pair_in_joint_constraints [of p1 _ p2]) (simp_all add: pair_constraint_def)
  qed
  have 4: "\<forall>x \<in> set ?res. \<not> is_strict x"
    using joint_constraints_not_strict by blast
  show ?thesis
    using order_cardinalities_result [OF assms] 1 2 3 4
    by (intro exI [of _ ?res]) (simp add: cardinality_le_implies_lt_def)
qed

theorem order_cardinalities_constraints_witness:
  "order_cardinalities xs_le_ys_oracle two_bags_a two_bags_b T =
     (Inr (EAll [EBinOp (EVar ''v1'' TInt) ''>='' ZERO TBool,
                 EBinOp (EVar ''v1'' TInt) ''<='' (EVar ''v2'' TInt) TBool,
                 EEq (EVar ''v1'' TInt) (EVar ''v3'' TInt),
                 EBinOp (EVar ''v2'' TInt) ''>='' ZERO TBool,
                 EBinOp (EVar ''v3'' TInt) ''>='' ZERO TBool,
                 EEq (EVar ''v3'' TInt) (EVar ''v1'' TInt),
                 EBinOp (EVar ''v3'' TInt) ''<='' (EVar ''v2'' TInt) TBool]),
      [SessionCall (le_query T (EVar ''xs'' (TBag TInt)) (EVar ''ys'' (TBag TInt))),
       SessionCall (le_query T (EVar ''ys'' (TBag TInt)) (EVar ''xs'' (TBag TInt))),
       SessionCall (le_query T (EVar ''ys'' (TBag TInt)) (EVar ''xs'' (TBag TInt))),
       SessionCall (le_query T (EVar ''xs'' (TBag TInt)) (EVar ''ys'' (TBag TInt)))])"
proof -
  have items: "merged_cardinalities two_bags_a two_bags_b =
      [(EVar ''v1'' TInt, EVar ''xs'' (TBag TInt)), (EVar ''v2'' TInt, EVar ''ys'' (TBag TInt)),
       (EVar ''v3'' TInt, EVar ''xs'' (TBag TInt))]"
    by (simp add: merged_cardinalities_def two_bags_a_def two_bags_b_def plain_cost_def)
  have q: "oracle_queries T (merged_cardinalities two_bags_a two_bags_b) =
      [le_query T (EVar ''xs'' (TBag TInt)) (EVar ''ys'' (TBag TInt)),
       le_query T (EVar ''ys'' (TBag TInt)) (EVar ''xs'' (TBag TInt)),
       le_query T (EVar ''ys'' (TBag TInt)) (EVar ''xs'' (TBag TInt)),
       le_query T (EVar ''xs'' (TBag TInt)) (EVar ''ys'' (TBag TInt))]"
    by (simp add: items oracle_queries_def pair_query_def alpha_equivalent_def)
  have r: "joint_constraints (session_valid xs_le_ys_oracle) T
             (merged_cardinalities two_bags_a two_bags_b) =
      [EBinOp (EVar ''v1'' TInt) ''>='' ZERO TBool,
       EBinOp (EVar ''v1'' TInt) ''<='' (EVar ''v2'' TInt) TBool,
       EEq (EVar ''v1'' TInt) (EVar ''v3'' TInt),
       EBinOp (EVar ''v2'' TInt) ''>='' ZERO TBool,
       EBinOp (EVar ''v3'' TInt) ''>='' ZERO TBool,
       EEq (EVar ''v3'' TInt) (EVar ''v1'' TInt),
       EBinOp (EVar ''v3'' TInt) ''<='' (EVar ''v2'' TInt) TBool]"
    by (simp add: items joint_constraints_def pair_constraint_def alpha_equivalent_def
        xs_le_ys_oracle_def le_query_def EImplies_def ELen_def)
  have total: "\<forall>q \<in> set (oracle_queries T (merged_cardinalities two_bags_a two_bags_b)).
      session_valid xs_le_ys_oracle q \<noteq> None"
    by (simp add: xs_le_ys_oracle_def)
  show ?thesis
    using order_cardinalities_constraints [OF total] by (auto simp: q r)
qed

subsection \<open>Alpha-equivalence is an equivalence relation\<close>

lemma var_match_refl: "var_match (map (\<lambda>x. (x, x)) xs) x x"
  by (induction xs) auto

lemma alpha_eq_refl: "alpha_eq (map (\<lambda>x. (x, x)) xs) a a"
proof (induction a arbitrary: xs)
  case (ELambda x t b)
  show ?case
    using ELambda [of "x # xs"] by simp
qed (simp_all add: var_match_refl)

lemma alpha_equivalent_refl: "alpha_equivalent a a"
  using alpha_eq_refl [of "[]" a] by (simp add: alpha_equivalent_def)

lemma var_match_trans:
  "var_match (ab m) x y \<Longrightarrow> var_match (bc m) y z \<Longrightarrow> var_match (ac m) x z"
proof (induction m)
  case Nil
  then show ?case by (simp add: ab_def bc_def ac_def)
next
  case (Cons p m)
  obtain a b c where p: "p = (a, b, c)"
    by (cases p) auto
  have steps: "ab (p # m) = (a, b) # ab m" "bc (p # m) = (b, c) # bc m"
    "ac (p # m) = (a, c) # ac m"
    by (simp_all add: p ab_def bc_def ac_def)
  show ?case
    using Cons unfolding steps
    by (cases "x = a"; cases "y = b"; cases "z = c") simp_all
qed

lemma triple_cons:
  "ab ((x, y, z) # m) = (x, y) # ab m" "bc ((x, y, z) # m) = (y, z) # bc m"
  "ac ((x, y, z) # m) = (x, z) # ac m"
  by (simp_all add: ab_def bc_def ac_def)


lemma alpha_eq_trans:
  "alpha_eq (ab m) a b \<Longrightarrow> alpha_eq (bc m) b c \<Longrightarrow> alpha_eq (ac m) a c"
proof (induction a arbitrary: m b c)
  case (EVar x t)
  from EVar.prems(1) obtain y u where b: "b = EVar y u"
    by (cases b) auto
  from EVar.prems(2) b obtain z w where c: "c = EVar z w"
    by (cases c) auto
  show ?case
    using EVar.prems var_match_trans [of m x y z] by (simp add: b c)
next
  case (ELambda x t d)
  from ELambda.prems(1) obtain y u e where b: "b = ELambda y u e"
    by (cases b) auto
  from ELambda.prems(2) b obtain z w f where c: "c = ELambda z w f"
    by (cases c) auto
  have "alpha_eq (ac ((x, y, z) # m)) d f"
    using ELambda.IH [of "(x, y, z) # m" e f] ELambda.prems
    by (simp add: b c triple_cons)
  then show ?case
    by (simp add: c triple_cons)
next
  case (EBool a0 a1)
  from EBool.prems(1) obtain b0 b1 where b: "b = EBool b0 b1"
    by (cases b) auto
  from EBool.prems(2) b obtain c0 c1 where c: "c = EBool c0 c1"
    by (cases c) auto
  show ?case
    using EBool.prems  by (simp add: b c)
next
  case (ENum a0 a1)
  from ENum.prems(1) obtain b0 b1 where b: "b = ENum b0 b1"
    by (cases b) auto
  from ENum.prems(2) b obtain c0 c1 where c: "c = ENum c0 c1"
    by (cases c) auto
  show ?case
    using ENum.prems  by (simp add: b c)
next
  case (ECond a0 a1 a2 a3)
  from ECond.prems(1) obtain b0 b1 b2 b3 where b: "b = ECond b0 b1 b2 b3"
    by (cases b) auto
  from ECond.prems(2) b obtain c0 c1 c2 c3 where c: "c = ECond c0 c1 c2 c3"
    by (cases c) auto
  show ?case
    using ECond.prems ECond.IH(1) [of m b0 c0] ECond.IH(2) [of m b1 c1] ECond.IH(3) [of m b2 c2] by (simp add: b c)
next
  case (EBinOp a0 a1 a2 a3)
  from EBinOp.prems(1) obtain b0 b1 b2 b3 where b: "b = EBinOp b0 b1 b2 b3"
    by (cases b) auto
  from EBinOp.prems(2) b obtain c0 c1 c2 c3 where c: "c = EBinOp c0 c1 c2 c3"
    by (cases c) auto
  show ?case
    using EBinOp.prems EBinOp.IH(1) [of m b0 c0] EBinOp.IH(2) [of m b2 c2] by (simp add: b c)
next
  case (EUnaryOp a0 a1 a2)
  from EUnaryOp.prems(1) obtain b0 b1 b2 where b: "b = EUnaryOp b0 b1 b2"
    by (cases b) auto
  from EUnaryOp.prems(2) b obtain c0 c1 c2 where c: "c = EUnaryOp c0 c1 c2"
    by (cases c) auto
  show ?case
    using EUnaryOp.prems EUnaryOp.IH [of m b1 c1] by (simp add: b c)
next
  case (EEmptyList a0)
  from EEmptyList.prems(1) obtain b0 where b: "b = EEmptyList b0"
    by (cases b) auto
  from EEmptyList.prems(2) b obtain c0 where c: "c = EEmptyList c0"
    by (cases c) auto
  show ?case
    using EEmptyList.prems  by (simp add: b c)
next
  case (ESingleton a0 a1)
  from ESingleton.prems(1) obtain b0 b1 where b: "b = ESingleton b0 b1"
    by (cases b) auto
  from ESingleton.prems(2) b obtain c0 c1 where c: "c = ESingleton c0 c1"
    by (cases c) auto
  show ?case
    using ESingleton.prems ESingleton.IH [of m b0 c0] by (simp add: b c)
next
  case (EFilter a0 a1 a2)
  from EFilter.prems(1) obtain b0 b1 b2 where b: "b = EFilter b0 b1 b2"
    by (cases b) auto
  from EFilter.prems(2) b obtain c0 c1 c2 where c: "c = EFilter c0 c1 c2"
    by (cases c) auto
  show ?case
    using EFilter.prems EFilter.IH(1) [of m b0 c0] EFilter.IH(2) [of m b1 c1] by (simp add: b c)
next
  case (EMap a0 a1 a2)
  from EMap.prems(1) obtain b0 b1 b2 where b: "b = EMap b0 b1 b2"
    by (cases b) auto
  from EMap.prems(2) b obtain c0 c1 c2 where c: "c = EMap c0 c1 c2"
    by (cases c) auto
  show ?case
    using EMap.prems EMap.IH(1) [of m b0 c0] EMap.IH(2) [of m b1 c1] by (simp add: b c)
next
  case (EFlatMap a0 a1 a2)
  from EFlatMap.prems(1) obtain b0 b1 b2 where b: "b = EFlatMap b0 b1 b2"
    by (cases b) auto
  from EFlatMap.prems(2) b obtain c0 c1 c2 where c: "c = EFlatMap c0 c1 c2"
    by (cases c) auto
  show ?case
    using EFlatMap.prems EFlatMap.IH(1) [of m b0 c0] EFlatMap.IH(2) [of m b1 c1] by (simp add: b c)
next
  case (EArgMin a0 a1 a2)
  from EArgMin.prems(1) obtain b0 b1 b2 where b: "b = EArgMin b0 b1 b2"
    by (cases b) auto
  from EArgMin.prems(2) b obtain c0 c1 c2 where c: "c = EArgMin c0 c1 c2"
    by (cases c) auto
  show ?case
    using EArgMin.prems EArgMin.IH(1) [of m b0 c0] EArgMin.IH(2) [of m b1 c1] by (simp add: b c)
next
  case (EArgMax a0 a1 a2)
  from EArgMax.prems(1) obtain b0 b1 b2 where b: "b = EArgMax b0 b1 b2"
    by (cases b) auto
  from EArgMax.prems(2) b obtain c0 c1 c2 where c: "c = EArgMax c0 c1 c2"
    by (cases c) auto
  show ?case
    using EArgMax.prems EArgMax.IH(1) [of m b0 c0] EArgMax.IH(2) [of m b1 c1] by (simp add: b c)
next
  case (EMapGet a0 a1 a2)
  from EMapGet.prems(1) obtain b0 b1 b2 where b: "b = EMapGet b0 b1 b2"
    by (cases b) auto
  from EMapGet.prems(2) b obtain c0 c1 c2 where c: "c = EMapGet c0 c1 c2"
    by (cases c) auto
  show ?case
    using EMapGet.prems EMapGet.IH(1) [of m b0 c0] EMapGet.IH(2) [of m b1 c1] by (simp add: b c)
next
  case (EMakeMap2 a0 a1 a2)
  from EMakeMap2.prems(1) obtain b0 b1 b2 where b: "b = EMakeMap2 b0 b1 b2"
    by (cases b) auto
  from EMakeMap2.prems(2) b obtain c0 c1 c2 where c: "c = EMakeMap2 c0 c1 c2"
    by (cases c) auto
  show ?case
    using EMakeMap2.prems EMakeMap2.IH(1) [of m b0 c0] EMakeMap2.IH(2) [of m b1 c1] by (simp add: b c)
next
  case (EStateVar a0 a1)
  from EStateVar.prems(1) obtain b0 b1 where b: "b = EStateVar b0 b1"
    by (cases b) auto
  from EStateVar.prems(2) b obtain c0 c1 where c: "c = EStateVar c0 c1"
    by (cases c) auto
  show ?case
    using EStateVar.prems EStateVar.IH [of m b0 c0] by (simp add: b c)
next
  case (EDropFront a0 a1)
  from EDropFront.prems(1) obtain b0 b1 where b: "b = EDropFront b0 b1"
    by (cases b) auto
  from EDropFront.prems(2) b obtain c0 c1 where c: "c = EDropFront c0 c1"
    by (cases c) auto
  show ?case
    using EDropFront.prems EDropFront.IH [of m b0 c0] by (simp add: b c)
next
  case (EDropBack a0 a1)
  from EDropBack.prems(1) obtain b0 b1 where b: "b = EDropBack b0 b1"
    by (cases b) auto
  from EDropBack.prems(2) b obtain c0 c1 where c: "c = EDropBack c0 c1"
    by (cases c) auto
  show ?case
    using EDropBack.prems EDropBack.IH [of m b0 c0] by (simp add: b c)
qed

lemma alpha_equivalent_trans:
  "alpha_equivalent a b \<Longrightarrow> alpha_equivalent b c \<Longrightarrow> alpha_equivalent a c"
  using alpha_eq_trans [of "[]" a b c] by (simp add: alpha_equivalent_def ab_def bc_def ac_def)


lemma var_match_sym: "var_match m x y \<Longrightarrow> var_match (flip m) y x"
proof (induction m)
  case Nil
  then show ?case by (simp add: flip_def)
next
  case (Cons p m)
  obtain a b where p: "p = (a, b)"
    by (cases p) auto
  have step: "flip ((a, b) # m) = (b, a) # flip m"
    by (simp add: flip_def)
  show ?case
    using Cons unfolding p step
    by (cases "x = a"; cases "y = b") simp_all
qed

lemma alpha_eq_sym: "alpha_eq m a b \<Longrightarrow> alpha_eq (flip m) b a"
proof (induction a arbitrary: m b)
  case (EVar x t)
  from EVar.prems obtain y u where b: "b = EVar y u"
    by (cases b) auto
  show ?case
    using EVar.prems var_match_sym [of m x y] by (simp add: b)
next
  case (ELambda x t d)
  from ELambda.prems obtain y u e where b: "b = ELambda y u e"
    by (cases b) auto
  have "flip ((x, y) # m) = (y, x) # flip m"
    by (simp add: flip_def)
  then show ?case
    using ELambda.IH [of "(x, y) # m" e] ELambda.prems by (simp add: b)
next
  case (EBool a0 a1)
  from EBool.prems obtain b0 b1 where b: "b = EBool b0 b1"
    by (cases b) auto
  show ?case
    using EBool.prems  by (simp add: b)
next
  case (ENum a0 a1)
  from ENum.prems obtain b0 b1 where b: "b = ENum b0 b1"
    by (cases b) auto
  show ?case
    using ENum.prems  by (simp add: b)
next
  case (ECond a0 a1 a2 a3)
  from ECond.prems obtain b0 b1 b2 b3 where b: "b = ECond b0 b1 b2 b3"
    by (cases b) auto
  show ?case
    using ECond.prems ECond.IH(1) [of m b0] ECond.IH(2) [of m b1] ECond.IH(3) [of m b2] by (simp add: b)
next
  case (EBinOp a0 a1 a2 a3)
  from EBinOp.prems obtain b0 b1 b2 b3 where b: "b = EBinOp b0 b1 b2 b3"
    by (cases b) auto
  show ?case
    using EBinOp.prems EBinOp.IH(1) [of m b0] EBinOp.IH(2) [of m b2] by (simp add: b)
next
  case (EUnaryOp a0 a1 a2)
  from EUnaryOp.prems obtain b0 b1 b2 where b: "b = EUnaryOp b0 b1 b2"
    by (cases b) auto
  show ?case
    using EUnaryOp.prems EUnaryOp.IH [of m b1] by (simp add: b)
next
  case (EEmptyList a0)
  from EEmptyList.prems obtain b0 where b: "b = EEmptyList b0"
    by (cases b) auto
  show ?case
    using EEmptyList.prems  by (simp add: b)
next
  case (ESingleton a0 a1)
  from ESingleton.prems obtain b0 b1 where b: "b = ESingleton b0 b1"
    by (cases b) auto
  show ?case
    using ESingleton.prems ESingleton.IH [of m b0] by (simp add: b)
next
  case (EFilter a0 a1 a2)
  from EFilter.prems obtain b0 b1 b2 where b: "b = EFilter b0 b1 b2"
    by (cases b) auto
  show ?case
    using EFilter.prems EFilter.IH(1) [of m b0] EFilter.IH(2) [of m b1] by (simp add: b)
next
  case (EMap a0 a1 a2)
  from EMap.prems obtain b0 b1 b2 where b: "b = EMap b0 b1 b2"
    by (cases b) auto
  show ?case
    using EMap.prems EMap.IH(1) [of m b0] EMap.IH(2) [of m b1] by (simp add: b)
next
  case (EFlatMap a0 a1 a2)
  from EFlatMap.prems obtain b0 b1 b2 where b: "b = EFlatMap b0 b1 b2"
    by (cases b) auto
  show ?case
    using EFlatMap.prems EFlatMap.IH(1) [of m b0] EFlatMap.IH(2) [of m b1] by (simp add: b)
next
  case (EArgMin a0 a1 a2)
  from EArgMin.prems obtain b0 b1 b2 where b: "b = EArgMin b0 b1 b2"
    by (cases b) auto
  show ?case
    using EArgMin.prems EArgMin.IH(1) [of m b0] EArgMin.IH(2) [of m b1] by (simp add: b)
next
  case (EArgMax a0 a1 a2)
  from EArgMax.prems obtain b0 b1 b2 where b: "b = EArgMax b0 b1 b2"
    by (cases b) auto
  show ?case
    using EArgMax.prems EArgMax.IH(1) [of m b0] EArgMax.IH(2) [of m b1] by (simp add: b)
next
  case (EMapGet a0 a1 a2)
  from EMapGet.prems obtain b0 b1 b2 where b: "b = EMapGet b0 b1 b2"
    by (cases b) auto
  show ?case
    using EMapGet.prems EMapGet.IH(1) [of m b0] EMapGet.IH(2) [of m b1] by (simp add: b)
next
  case (EMakeMap2 a0 a1 a2)
  from EMakeMap2.prems obtain b0 b1 b2 where b: "b = EMakeMap2 b0 b1 b2"
    by (cases b) auto
  show ?case
    using EMakeMap2.prems EMakeMap2.IH(1) [of m b0] EMakeMap2.IH(2) [of m b1] by (simp add: b)
next
  case (EStateVar a0 a1)
  from EStateVar.prems obtain b0 b1 where b: "b = EStateVar b0 b1"
    by (cases b) auto
  show ?case
    using EStateVar.prems EStateVar.IH [of m b0] by (simp add: b)
next
  case (EDropFront a0 a1)
  from EDropFront.prems obtain b0 b1 where b: "b = EDropFront b0 b1"
    by (cases b) auto
  show ?case
    using EDropFront.prems EDropFront.IH [of m b0] by (simp add: b)
next
  case (EDropBack a0 a1)
  from EDropBack.prems obtain b0 b1 where b: "b = EDropBack b0 b1"
    by (cases b) auto
  show ?case
    using EDropBack.prems EDropBack.IH [of m b0] by (simp add: b)
qed

lemma alpha_equivalent_sym: "alpha_equivalent a b \<Longrightarrow> alpha_equivalent b a"
  using alpha_eq_sym [of "[]" a b] by (simp add: alpha_equivalent_def flip_def)

subsection \<open>The table of cardinalities\<close>

lemma table_get_cong:
  assumes "alpha_equivalent x y"
  shows "table_get d x = table_get d y"
proof (induction d)
  case (Cons p d)
  obtain k v where p: "p = (k, v)" by (cases p)
  have "alpha_equivalent k x \<longleftrightarrow> alpha_equivalent k y"
    using assms alpha_equivalent_trans alpha_equivalent_sym by blast
  then show ?case
    using Cons by (simp add: p)
qed simp

lemma table_get_set_miss:
  assumes "table_get d x = None"
  shows "table_get (table_set d x v) k =
           (case table_get d k of Some w \<Rightarrow> Some w
            | None \<Rightarrow> if alpha_equivalent x k then Some v else None)"
  using assms by (induction d) (auto split: if_splits)

lemma table_get_set_same: "table_get (table_set d x v) x = Some v"
  by (induction d) (auto simp: alpha_equivalent_refl)

lemma table_set_miss: "table_get d x = None \<Longrightarrow> table_set d x v = d @ [(x, v)]"
  by (induction d) (auto split: if_splits)

lemma fresh_var_cardinalities [simp]:
  "cm_cardinalities (snd (fresh_var t s)) = cm_cardinalities s"
  "cm_assumptions (snd (fresh_var t s)) = cm_assumptions s"
  "cm_secondaries (snd (fresh_var t s)) = cm_secondaries s"
  "cm_counter (snd (fresh_var t s)) = Suc (cm_counter s)"
  "fst (fresh_var t s) = EVar (fresh_name (cm_counter s)) t"
  by (simp_all add: fresh_var_def)

lemma allocate_simps:
  "fst (allocate x s) = EVar (fresh_name (cm_counter s)) TInt"
  "cm_cardinalities (snd (allocate x s)) =
     table_set (cm_cardinalities s) x (EVar (fresh_name (cm_counter s)) TInt)"
  "cm_assumptions (snd (allocate x s)) = cm_assumptions s"
  "cm_secondaries (snd (allocate x s)) = cm_secondaries s"
  "cm_counter (snd (allocate x s)) = Suc (cm_counter s)"
  by (simp_all add: allocate_def fresh_var_def)

lemma add_assumption_simps [simp]:
  "cm_cardinalities (add_assumption a s) = cm_cardinalities s"
  "cm_assumptions (add_assumption a s) = cm_assumptions s @ [a]"
  "cm_secondaries (add_assumption a s) = cm_secondaries s"
  "cm_counter (add_assumption a s) = cm_counter s"
  by (simp_all add: add_assumption_def)

lemma allocate_keeps:
  assumes "table_get (cm_cardinalities s) x = None" "table_get (cm_cardinalities s) k = Some v"
  shows "table_get (cm_cardinalities (snd (allocate x s))) k = Some v"
  using assms by (simp add: allocate_simps table_get_set_miss)

lemma cardinality_keeps:
  "table_get (cm_cardinalities s) k = Some v \<Longrightarrow>
   table_get (cm_cardinalities (snd (cardinality x s))) k = Some v"
proof (induction x arbitrary: s)
  case (EBinOp a op b t)
  show ?case
  proof (cases "op = ''+''")
    case True
    then show ?thesis
      using EBinOp.IH(2) [OF EBinOp.IH(1) [OF EBinOp.prems]]
      by (auto simp: split_def Let_def)
  next
    case False
    show ?thesis
    proof (cases "table_get (cm_cardinalities s) (EBinOp a op b t)")
      case None
      from allocate_keeps [OF None EBinOp.prems]
      show ?thesis
        using False None EBinOp.IH(1) [of "snd (allocate (EBinOp a op b t) s)"]
        by (auto simp: split_def Let_def)
    next
      case (Some w)
      then show ?thesis using False EBinOp.prems by simp
    qed
  qed
next
  case (EFilter a p t)
  show ?case
  proof (cases "table_get (cm_cardinalities s) (EFilter a p t)")
    case None
    from allocate_keeps [OF None EFilter.prems]
    show ?thesis
      using None EFilter.IH(1) [of "snd (allocate (EFilter a p t) s)"]
      by (auto simp: split_def Let_def)
  next
    case (Some w)
    then show ?thesis using EFilter.prems by simp
  qed
next
  case (EUnaryOp op a t)
  show ?case
  proof (cases "table_get (cm_cardinalities s) (EUnaryOp op a t)")
    case None
    from allocate_keeps [OF None EUnaryOp.prems]
    show ?thesis
      using None EUnaryOp.IH [of "snd (allocate (EUnaryOp op a t) s)"]
      by (auto simp: split_def Let_def)
  next
    case (Some w)
    then show ?thesis using EUnaryOp.prems by simp
  qed
next
  case (ECond c a b t)
  show ?case
  proof (cases "table_get (cm_cardinalities s) (ECond c a b t)")
    case None
    from allocate_keeps [OF None ECond.prems]
    have 1: "table_get (cm_cardinalities (snd (allocate (ECond c a b t) s))) k = Some v" .
    show ?thesis
      using None ECond.IH(3) [OF ECond.IH(2) [OF 1]]
      by (auto simp: split_def Let_def)
  next
    case (Some w)
    then show ?thesis using ECond.prems by simp
  qed
qed (auto simp: allocate_keeps split: option.splits)


lemma sizeof_keeps:
  "table_get (cm_cardinalities s) k = Some v \<Longrightarrow>
   table_get (cm_cardinalities (snd (sizeof x s))) k = Some v"
  by (simp add: sizeof_def cardinality_keeps)

lemma visit_keeps:
  "table_get (cm_cardinalities s) k = Some v \<Longrightarrow>
   table_get (cm_cardinalities (snd (visit rnd x s))) k = Some v"
proof (induction rnd x s rule: visit.induct)
  case (4 rnd c a b t s)
  note s1 = "4.IH"(1) [OF "4.prems"]
  note s2 = "4.IH"(2) [OF refl prod.collapse s1]
  note s3 = "4.IH"(3) [OF refl prod.collapse refl prod.collapse s2]
  show ?case using s3 by (simp add: visit.simps split_def Let_def)
next
  case (5 rnd a op b t s)
  note s1 = "5.IH"(1) [OF "5.prems"]
  note s2 = "5.IH"(2) [OF refl prod.collapse s1]
  show ?case using s2 by (auto simp: visit.simps split_def Let_def cardinality_keeps)
next
  case (6 rnd op a t s)
  note s1 = "6.IH" [OF "6.prems"]
  show ?case using s1 by (auto simp: visit.simps split_def Let_def cardinality_keeps)
next
  case (8 rnd a t s)
  show ?case using "8.IH" [OF "8.prems"] by (simp add: visit.simps split_def Let_def)
next
  case (9 rnd x u b s)
  have "table_get (cm_cardinalities (snd (fresh_var u s))) k = Some v"
    using "9.prems" by simp
  from "9.IH" [OF refl prod.collapse this]
  show ?case by (simp add: visit.simps split_def Let_def)
next
  case (10 rnd a p t s)
  note s1 = "10.IH"(1) [OF "10.prems"]
  note s2 = cardinality_keeps [OF s1, of a]
  note s3 = "10.IH"(2) [OF refl prod.collapse refl prod.collapse s2]
  show ?case using s3 by (simp add: visit.simps split_def Let_def)
next
  case (11 rnd a f t s)
  note s1 = "11.IH"(1) [OF "11.prems"]
  note s2 = cardinality_keeps [OF s1, of a]
  note s3 = "11.IH"(2) [OF refl prod.collapse refl prod.collapse s2]
  show ?case using s3 by (simp add: visit.simps split_def Let_def)
next
  case (12 rnd a f t s)
  show ?case using "12.IH" [OF "12.prems"] by (simp add: visit.simps)
next
  case (13 rnd a f t s)
  note s1 = "13.IH"(1) [OF "13.prems"]
  note s2 = cardinality_keeps [OF s1, of a]
  note s3 = "13.IH"(2) [OF refl prod.collapse refl prod.collapse s2]
  show ?case using s3 by (simp add: visit.simps split_def Let_def)
next
  case (14 rnd a f t s)
  note s1 = "14.IH"(1) [OF "14.prems"]
  note s2 = cardinality_keeps [OF s1, of a]
  note s3 = "14.IH"(2) [OF refl prod.collapse refl prod.collapse s2]
  show ?case using s3 by (simp add: visit.simps split_def Let_def)
next
  case (15 rnd m k' t s)
  note s1 = "15.IH"(1) [OF "15.prems"]
  note s2 = "15.IH"(2) [OF refl prod.collapse s1]
  show ?case using s2 by (simp add: visit.simps split_def Let_def)
next
  case (16 rnd a w t s)
  note s1 = "16.IH"(1) [OF "16.prems"]
  note s2 = cardinality_keeps [OF s1, of a]
  note s3 = "16.IH"(2) [OF refl prod.collapse refl prod.collapse s2]
  show ?case using s3 by (simp add: visit.simps split_def Let_def)
next
  case (17 rnd a t s)
  have "table_get (cm_cardinalities (s\<lparr>cm_secondaries := rnd (cm_secondaries s + statecost rnd a)\<rparr>)) k = Some v"
    using "17.prems" by simp
  from sizeof_keeps [OF this]
  show ?case by (simp add: visit.simps split_def Let_def)
next
  case (18 rnd a t s)
  show ?case using cardinality_keeps [OF "18.IH" [OF "18.prems"], of a]
    by (simp add: visit.simps split_def Let_def)
next
  case (19 rnd a t s)
  show ?case using cardinality_keeps [OF "19.IH" [OF "19.prems"], of a]
    by (simp add: visit.simps split_def Let_def)
qed (simp_all add: visit.simps)


lemma cardinality_counter_mono: "cm_counter s \<le> cm_counter (snd (cardinality x s))"
proof (induction x arbitrary: s)
  case (EBinOp a op b t)
  show ?case
    using EBinOp.IH(1) [of s] EBinOp.IH(2) [of "snd (cardinality a s)"]
      EBinOp.IH(1) [of "snd (allocate (EBinOp a op b t) s)"]
    by (auto simp: split_def Let_def allocate_simps split: option.splits)
next
  case (EFilter a p t)
  show ?case
    using EFilter.IH(1) [of "snd (allocate (EFilter a p t) s)"]
    by (auto simp: split_def Let_def allocate_simps split: option.splits)
next
  case (EUnaryOp op a t)
  show ?case
    using EUnaryOp.IH [of "snd (allocate (EUnaryOp op a t) s)"]
    by (auto simp: split_def Let_def allocate_simps split: option.splits)
next
  case (ECond c a b t)
  show ?case
    using ECond.IH(2) [of "snd (allocate (ECond c a b t) s)"]
      ECond.IH(3) [of "snd (cardinality a (snd (allocate (ECond c a b t) s)))"]
    by (auto simp: split_def Let_def allocate_simps split: option.splits)
qed (auto simp: allocate_simps split: option.splits)

lemma cardinality_hit:
  assumes "\<not> structural x" "table_get (cm_cardinalities s) x = Some v"
  shows "cardinality x s = (v, s)"
  using assms by (cases x) (auto simp: structural_def)

lemma allocate_stores:
  "table_get (cm_cardinalities (snd (allocate x s))) x = Some (fst (allocate x s))"
  by (simp add: allocate_simps table_get_set_same)

lemma cardinality_miss:
  assumes "\<not> structural x" "table_get (cm_cardinalities s) x = None"
  shows "fst (cardinality x s) = EVar (fresh_name (cm_counter s)) TInt"
    and "table_get (cm_cardinalities (snd (cardinality x s))) x = Some (fst (cardinality x s))"
    and "cm_counter s < cm_counter (snd (cardinality x s))"
proof -
  let ?s1 = "snd (allocate x s)"
  have st: "table_get (cm_cardinalities ?s1) x = Some (EVar (fresh_name (cm_counter s)) TInt)"
    using allocate_stores [of x s] by (simp add: allocate_simps)
  have c: "Suc (cm_counter s) \<le> cm_counter (snd (cardinality a ?s1))" for a
    using cardinality_counter_mono [of ?s1 a] by (simp add: allocate_simps)
  have c2: "Suc (cm_counter s) \<le> cm_counter (snd (cardinality b (snd (cardinality a ?s1))))"
    for a b
    using cardinality_counter_mono [of "snd (cardinality a ?s1)" b] c [of a] by simp
  show "fst (cardinality x s) = EVar (fresh_name (cm_counter s)) TInt"
    using assms by (cases x) (auto simp: structural_def split_def Let_def allocate_simps)
  show "table_get (cm_cardinalities (snd (cardinality x s))) x = Some (fst (cardinality x s))"
    using assms st cardinality_keeps [OF st] cardinality_keeps [OF cardinality_keeps [OF st]]
    by (cases x) (auto simp: structural_def split_def Let_def allocate_simps)
  show "cm_counter s < cm_counter (snd (cardinality x s))"
    using assms c c2
    by (cases x) (auto simp: structural_def split_def Let_def allocate_simps Suc_le_eq)
qed


lemma digit_inj:
  assumes "i < 10" "j < 10" "''0123456789'' ! i = ''0123456789'' ! j"
  shows "i = j"
proof -
  have "distinct ''0123456789''" by simp
  moreover have "i < length ''0123456789''" "j < length ''0123456789''"
    using assms by simp_all
  ultimately show ?thesis
    using assms(3) nth_eq_iff_index_eq by blast
qed

lemma show_nat_nonempty: "show_nat n \<noteq> []"
  by (subst show_nat.simps) simp

lemma show_nat_inj: "show_nat m = show_nat n \<Longrightarrow> m = n"
proof (induction m arbitrary: n rule: show_nat.induct)
  case (1 m)
  show ?case
  proof (cases "m < 10")
    case True
    then have m: "show_nat m = [''0123456789'' ! m]"
      by (subst show_nat.simps) simp
    show ?thesis
    proof (cases "n < 10")
      case True
      then have "show_nat n = [''0123456789'' ! n]"
        by (subst show_nat.simps) simp
      with m "1.prems" \<open>m < 10\<close> True show ?thesis
        using digit_inj by simp
    next
      case False
      then have "show_nat n = show_nat (n div 10) @ [''0123456789'' ! (n mod 10)]"
        by (subst show_nat.simps) simp
      with m "1.prems" show_nat_nonempty [of "n div 10"] show ?thesis
        by simp
    qed
  next
    case False
    then have m: "show_nat m = show_nat (m div 10) @ [''0123456789'' ! (m mod 10)]"
      by (subst show_nat.simps) simp
    show ?thesis
    proof (cases "n < 10")
      case True
      then have "show_nat n = [''0123456789'' ! n]"
        by (subst show_nat.simps) simp
      with m "1.prems" show_nat_nonempty [of "m div 10"] show ?thesis
        by simp
    next
      case n: False
      then have "show_nat n = show_nat (n div 10) @ [''0123456789'' ! (n mod 10)]"
        by (subst show_nat.simps) simp
      with m "1.prems" have eq: "show_nat (m div 10) = show_nat (n div 10)"
        and d: "''0123456789'' ! (m mod 10) = ''0123456789'' ! (n mod 10)"
        by simp_all
      have "m div 10 = n div 10"
        using "1.IH" [OF False eq] .
      moreover have "m mod 10 = n mod 10"
        using digit_inj [OF _ _ d] by simp
      ultimately show ?thesis
        by (metis div_mult_mod_eq)
    qed
  qed
qed

lemma fresh_name_inj: "fresh_name m = fresh_name n \<Longrightarrow> m = n"
  by (simp add: fresh_name_def show_nat_inj)

lemma EAny_two_equalities:
  "EAny [EEq v c1, EEq v c2] = EBinOp (EEq v c1) BOp_Or (EEq v c2) TBool"
  by (simp add: EAny_def EEq_def T_def F_def build_balanced_tree.simps [of _ _ "[_, _]"]
      build_balanced_tree.simps [of _ _ "[_]"])

subsection \<open>Sums and well-formed cost formulas\<close>

lemma sum_opt_alt:
  "sum_opt xs = (if None \<in> set xs then None else Some (sum_list (map the xs)))"
  by (induction xs rule: sum_opt.induct) auto

lemma sum_opt_append:
  "sum_opt (xs @ ys) =
     (case sum_opt xs of None \<Rightarrow> None | Some a \<Rightarrow> map_option ((+) a) (sum_opt ys))"
  by (auto simp: sum_opt_alt)

lemma int_value_plus:
  "int_value env (EBinOp a ''+'' b t) =
     (case int_value env a of None \<Rightarrow> None
      | Some m \<Rightarrow> map_option ((+) m) (int_value env b))"
  by (auto simp: int_value_def split: option.splits val.splits)

lemma int_value_times:
  "int_value env (EBinOp a ''*'' b t) =
     (case int_value env a of None \<Rightarrow> None
      | Some m \<Rightarrow> map_option ((*) m) (int_value env b))"
  by (auto simp: int_value_def split: option.splits val.splits)

lemma int_value_ENum [simp]: "int_value env (ENum n t) = Some n"
  by (simp add: int_value_def)

lemma int_value_break_sum:
  "sum_opt (map (int_value env) (break_sum x)) = int_value env x"
proof (induction x rule: break_sum.induct)
  case (1 a op b t)
  show ?case
  proof (cases "op = ''+''")
    case True
    then show ?thesis
      using 1 by (auto simp: sum_opt_append int_value_plus split: option.splits)
  next
    case False
    then show ?thesis
      by (cases "int_value env (EBinOp a op b t)") simp_all
  qed
qed (simp_all add: sum_opt_alt int_value_def)

lemma sum_opt_concat_break_sum:
  "sum_opt (map (int_value env) (concat (map break_sum xs))) = sum_opt (map (int_value env) xs)"
proof (induction xs)
  case (Cons x xs)
  then show ?case
    using int_value_break_sum [of env x]
    by (cases "int_value env x") (auto simp: sum_opt_append)
qed simp

lemma sum_opt_filter_zero:
  "sum_opt (map (int_value env) (filter (\<lambda>x. x \<noteq> ZERO) xs)) = sum_opt (map (int_value env) xs)"
proof (induction xs)
  case (Cons x xs)
  then show ?case
    by (cases "int_value env x") (auto simp: ZERO_def sum_opt_alt)
qed simp

lemma sum_opt_partition:
  "sum_opt (map (int_value env) (filter (\<lambda>x. \<not> is_ENum x) es
       @ [ENum (sum_list (map num_val (filter is_ENum es))) TInt]))
   = sum_opt (map (int_value env) es)"
proof (induction es)
  case (Cons x es)
  show ?case
  proof (cases "is_ENum x")
    case True
    then obtain n t where x: "x = ENum n t" by (cases x) auto
    show ?thesis
      using Cons by (auto simp: x sum_opt_alt split: if_splits)
  next
    case False
    then show ?thesis
      using Cons by (cases "int_value env x") (auto simp: sum_opt_alt split: if_splits)
  qed
qed simp

lemma filter_not_ENum_all:
  "filter is_ENum es = [] \<Longrightarrow> filter (\<lambda>x. \<not> is_ENum x) es = es"
  by (induction es) (auto split: if_splits)

lemma int_value_balanced:
  "es \<noteq> [] \<Longrightarrow>
   int_value env (build_balanced_tree t ''+'' es) = sum_opt (map (int_value env) es)"
proof (induction t "''+''" es rule: build_balanced_tree.induct)
  case (1 t es)
  show ?case
  proof (cases "length es = 1")
    case True
    then obtain x where "es = [x]"
      by (cases es) auto
    then show ?thesis
      by (cases "int_value env x") (simp_all add: build_balanced_tree.simps [of _ _ "[x]"])
  next
    case False
    let ?cut = "length es div 2"
    have len: "2 \<le> length es"
      using False "1.prems" by (cases es) (auto simp: Suc_le_eq)
    then have ne: "take ?cut es \<noteq> []" "drop ?cut es \<noteq> []"
      by auto
    have split_es: "es = take ?cut es @ drop ?cut es"
      by simp
    have "int_value env (build_balanced_tree t ''+'' es) =
        int_value env (EBinOp (build_balanced_tree t ''+'' (take ?cut es)) ''+''
                              (build_balanced_tree t ''+'' (drop ?cut es)) t)"
      using False "1.prems" by (subst build_balanced_tree.simps) (simp add: Let_def)
    also have "\<dots> = sum_opt (map (int_value env) (take ?cut es @ drop ?cut es))"
      using "1.hyps"(1) [OF "1.prems" False refl ne(1)]
        "1.hyps"(2) [OF "1.prems" False refl ne(2)]
      by (simp only: int_value_plus map_append sum_opt_append)
    finally show ?thesis
      by simp
  qed
qed

lemma int_value_ESum: "int_value env (ESum xs) = sum_opt (map (int_value env) xs)"
proof -
  let ?es = "filter (\<lambda>x. x \<noteq> ZERO) (concat (map break_sum xs))"
  have total: "sum_opt (map (int_value env) ?es) = sum_opt (map (int_value env) xs)"
    by (simp add: sum_opt_filter_zero sum_opt_concat_break_sum)
  show ?thesis
  proof (cases "?es = []")
    case True
    then show ?thesis
      using total by (simp add: ESum_def ZERO_def)
  next
    case False
    show ?thesis
    proof (cases "filter is_ENum ?es = []")
      case True
      then have "ESum xs = build_balanced_tree TInt ''+'' ?es"
        using False filter_not_ENum_all [OF True] by (simp add: ESum_def Let_def comp_def)
      then show ?thesis
        using int_value_balanced [OF False] total by simp
    next
      case nums: False
      let ?es' = "filter (\<lambda>x. \<not> is_ENum x) ?es
                    @ [ENum (sum_list (map num_val (filter is_ENum ?es))) TInt]"
      have "ESum xs = build_balanced_tree TInt ''+'' ?es'"
        using False nums by (simp add: ESum_def Let_def comp_def)
      then show ?thesis
        using int_value_balanced [of ?es' env TInt] sum_opt_partition [of env ?es] total
        by simp
    qed
  qed
qed


lemma arith_type: "arith x \<Longrightarrow> type_of x = TInt"
  by (cases x) auto

lemma arith_int_vars: "arith x \<Longrightarrow> int_vars x"
  by (induction x) (auto simp: int_vars_def)

lemma arith_value:
  assumes "arith x" "\<forall>v. env v \<noteq> None"
  shows "\<exists>n. int_value env x = Some n"
  using assms
proof (induction x)
  case (EBinOp a op b t)
  then obtain m n where "int_value env a = Some m" "int_value env b = Some n"
    by auto
  with EBinOp.prems show ?case
    by (auto simp: int_value_plus int_value_times)
next
  case (EVar x t)
  then obtain n where "env x = Some n"
    by auto
  then show ?case
    by (simp add: int_value_def)
qed (auto simp: int_value_def)

lemma arith_with_type: "arith x \<Longrightarrow> with_type x TInt = x"
  by (cases x) auto

lemma arith_break_sum: "arith x \<Longrightarrow> list_all arith (break_sum x)"
  by (induction x rule: break_sum.induct) auto

lemma arith_balanced:
  "es \<noteq> [] \<Longrightarrow> list_all arith es \<Longrightarrow> arith (build_balanced_tree TInt ''+'' es)"
proof (induction TInt "''+''" es rule: build_balanced_tree.induct)
  case (1 es)
  show ?case
  proof (cases "length es = 1")
    case True
    then obtain x where "es = [x]"
      by (cases es) auto
    with "1.prems" show ?thesis
      by (simp add: build_balanced_tree.simps [of _ _ "[x]"])
  next
    case False
    let ?cut = "length es div 2"
    have len: "2 \<le> length es"
      using False "1.prems" by (cases es) (auto simp: Suc_le_eq)
    then have ne: "take ?cut es \<noteq> []" "drop ?cut es \<noteq> []"
      by auto
    have parts: "list_all arith (take ?cut es)" "list_all arith (drop ?cut es)"
      using "1.prems"(2) by (auto simp: list_all_iff dest: in_set_takeD in_set_dropD)
    show ?thesis
      using False "1.prems"(1) "1.hyps"(1) [OF "1.prems"(1) False refl ne(1) parts(1)]
        "1.hyps"(2) [OF "1.prems"(1) False refl ne(2) parts(2)]
      by (subst build_balanced_tree.simps) (simp add: Let_def)
  qed
qed

lemma arith_ESum: "list_all arith xs \<Longrightarrow> arith (ESum xs)"
proof -
  assume a: "list_all arith xs"
  let ?es = "filter (\<lambda>x. x \<noteq> ZERO) (concat (map break_sum xs))"
  have es: "list_all arith ?es"
    using a arith_break_sum by (auto simp: list_all_iff)
  show ?thesis
  proof (cases "?es = []")
    case True
    then show ?thesis by (simp add: ESum_def ZERO_def)
  next
    case False
    let ?nums = "filter is_ENum ?es"
    let ?rest = "filter (\<lambda>x. \<not> is_ENum x) ?es"
    let ?es' = "if ?nums \<noteq> [] then ?rest @ [ENum (sum_list (map num_val ?nums)) TInt] else ?rest"
    have "?es' \<noteq> []"
      using False filter_not_ENum_all [of ?es] by auto
    moreover have "list_all arith ?es'"
      using es by (auto simp: list_all_iff)
    moreover have "ESum xs = build_balanced_tree TInt ''+'' ?es'"
      using False by (simp add: ESum_def Let_def comp_def)
    ultimately show ?thesis
      using arith_balanced by simp
  qed
qed

lemma table_get_in: "table_get d x = Some v \<Longrightarrow> \<exists>k. (k, v) \<in> set d"
  by (induction d) (auto split: if_splits)

lemma state_ok_lookup:
  "state_ok s \<Longrightarrow> table_get (cm_cardinalities s) x = Some v \<Longrightarrow> arith v"
  by (auto simp: state_ok_def list_all_iff dest!: table_get_in)

lemma table_set_all:
  "list_all (\<lambda>kv. P (snd kv)) d \<Longrightarrow> P v \<Longrightarrow> list_all (\<lambda>kv. P (snd kv)) (table_set d k v)"
  by (induction d) auto

lemma allocate_ok:
  "state_ok s \<Longrightarrow> state_ok (snd (allocate x s)) \<and> arith (fst (allocate x s))"
  by (simp add: state_ok_def allocate_simps table_set_all)

lemma add_assumption_ok:
  "state_ok s \<Longrightarrow> int_vars a \<Longrightarrow> state_ok (add_assumption a s)"
  by (simp add: state_ok_def)

lemma int_vars_binop:
  "int_vars a \<Longrightarrow> int_vars b \<Longrightarrow> int_vars (EBinOp a op b t)"
  by (simp add: int_vars_def)

lemma int_vars_ENum [simp]: "int_vars (ENum n t)"
  by (simp add: int_vars_def)


lemma int_vars_EAny_two:
  "int_vars a \<Longrightarrow> int_vars b \<Longrightarrow> int_vars c \<Longrightarrow> int_vars (EAny [EEq a b, EEq a c])"
  unfolding EAny_two_equalities by (simp add: EEq_def int_vars_def)

lemma int_vars_shrink_guard:
  "int_vars v \<Longrightarrow> int_vars cc \<Longrightarrow> int_vars (shrink_guard v cc)"
  by (simp add: shrink_guard_def int_vars_def)

lemma cardinality_ok:
  "state_ok s \<Longrightarrow> arith (fst (cardinality x s)) \<and> state_ok (snd (cardinality x s))"
proof (induction x arbitrary: s)
  case (EBinOp a op b t)
  show ?case
  proof (cases "op = ''+''")
    case True
    note a = EBinOp.IH(1) [OF EBinOp.prems]
    note b = EBinOp.IH(2) [OF a [THEN conjunct2]]
    show ?thesis
      using True a b by (simp add: split_def Let_def arith_ESum)
  next
    case False
    show ?thesis
    proof (cases "table_get (cm_cardinalities s) (EBinOp a op b t)")
      case None
      note al = allocate_ok [OF EBinOp.prems, of "EBinOp a op b t"]
      note a = EBinOp.IH(1) [OF al [THEN conjunct1]]
      show ?thesis
        using False None al a
        by (auto simp: split_def Let_def add_assumption_ok int_vars_binop arith_int_vars)
    next
      case (Some v)
      then show ?thesis
        using False EBinOp.prems state_ok_lookup by auto
    qed
  qed
next
  case (EFilter a p t)
  show ?case
  proof (cases "table_get (cm_cardinalities s) (EFilter a p t)")
    case None
    note al = allocate_ok [OF EFilter.prems, of "EFilter a p t"]
    note a = EFilter.IH(1) [OF al [THEN conjunct1]]
    show ?thesis
      using None al a
      by (auto simp: split_def Let_def add_assumption_ok int_vars_binop
          int_vars_shrink_guard arith_int_vars)
  next
    case (Some v)
    then show ?thesis
      using EFilter.prems state_ok_lookup by auto
  qed
next
  case (EUnaryOp op a t)
  show ?case
  proof (cases "table_get (cm_cardinalities s) (EUnaryOp op a t)")
    case None
    note al = allocate_ok [OF EUnaryOp.prems, of "EUnaryOp op a t"]
    note a = EUnaryOp.IH [OF al [THEN conjunct1]]
    show ?thesis
      using None al a
      by (auto simp: split_def Let_def add_assumption_ok int_vars_binop
          int_vars_shrink_guard arith_int_vars)
  next
    case (Some v)
    then show ?thesis
      using EUnaryOp.prems state_ok_lookup by auto
  qed
next
  case (ECond c a b t)
  show ?case
  proof (cases "table_get (cm_cardinalities s) (ECond c a b t)")
    case None
    note al = allocate_ok [OF ECond.prems, of "ECond c a b t"]
    note a = ECond.IH(2) [OF al [THEN conjunct1]]
    note b = ECond.IH(3) [OF a [THEN conjunct2]]
    show ?thesis
      using None al a b
      by (auto simp: split_def Let_def add_assumption_ok int_vars_EAny_two arith_int_vars)
  next
    case (Some v)
    then show ?thesis
      using ECond.prems state_ok_lookup by auto
  qed
qed (auto simp: ZERO_def ONE_def allocate_ok state_ok_lookup split: option.splits)


lemma arith_constants [simp]:
  "arith ONE" "arith ZERO" "arith TWO" "arith MILD_PENALTY" "arith EXTREME_COST"
  by (simp_all add: ONE_def ZERO_def TWO_def MILD_PENALTY_def EXTREME_COST_def)

lemma arith_per_element:
  "arith c1 \<Longrightarrow> arith k \<Longrightarrow> arith c2 \<Longrightarrow> arith (per_element c1 k c2)"
  by (simp add: per_element_def arith_ESum)

lemma fresh_var_ok: "state_ok s \<Longrightarrow> state_ok (snd (fresh_var t s))"
  by (simp add: state_ok_def)

lemma sizeof_ok:
  "state_ok s \<Longrightarrow> arith (fst (sizeof x s)) \<and> state_ok (snd (sizeof x s))"
  by (simp add: sizeof_def cardinality_ok)

lemma visit_ok:
  "state_ok s \<Longrightarrow> arith (fst (visit rnd x s)) \<and> state_ok (snd (visit rnd x s))"
proof (induction rnd x s rule: visit.induct)
  case (4 rnd c a b t s)
  note s1 = "4.IH"(1) [OF "4.prems"]
  note s2 = "4.IH"(2) [OF refl prod.collapse s1 [THEN conjunct2]]
  note s3 = "4.IH"(3) [OF refl prod.collapse refl prod.collapse s2 [THEN conjunct2]]
  show ?case using s1 s2 s3 by (simp add: visit.simps split_def Let_def arith_ESum)
next
  case (5 rnd a op b t s)
  note s1 = "5.IH"(1) [OF "5.prems"]
  note s2 = "5.IH"(2) [OF refl prod.collapse s1 [THEN conjunct2]]
  note k1 = cardinality_ok [OF s2 [THEN conjunct2]]
  note k2 = cardinality_ok [OF k1 [THEN conjunct2]]
  show ?case using s1 s2 k1 k2 by (simp add: visit.simps split_def Let_def arith_ESum)
next
  case (6 rnd op a t s)
  note s1 = "6.IH" [OF "6.prems"]
  note k1 = cardinality_ok [OF s1 [THEN conjunct2]]
  show ?case using s1 k1 by (simp add: visit.simps split_def Let_def arith_ESum)
next
  case (8 rnd a t s)
  show ?case using "8.IH" [OF "8.prems"] by (simp add: visit.simps split_def Let_def arith_ESum)
next
  case (9 rnd x u b s)
  from "9.IH" [OF refl prod.collapse fresh_var_ok [OF "9.prems"]]
  show ?case by (simp add: visit.simps split_def Let_def)
next
  case (10 rnd a p t s)
  note s1 = "10.IH"(1) [OF "10.prems"]
  note k1 = cardinality_ok [OF s1 [THEN conjunct2], of a]
  note s3 = "10.IH"(2) [OF refl prod.collapse refl prod.collapse k1 [THEN conjunct2]]
  show ?case using s1 k1 s3 by (simp add: visit.simps split_def Let_def arith_per_element)
next
  case (11 rnd a f t s)
  note s1 = "11.IH"(1) [OF "11.prems"]
  note k1 = cardinality_ok [OF s1 [THEN conjunct2], of a]
  note s3 = "11.IH"(2) [OF refl prod.collapse refl prod.collapse k1 [THEN conjunct2]]
  show ?case using s1 k1 s3 by (simp add: visit.simps split_def Let_def arith_per_element)
next
  case (12 rnd a f t s)
  show ?case using "12.IH" [OF "12.prems"] by (simp add: visit.simps)
next
  case (13 rnd a f t s)
  note s1 = "13.IH"(1) [OF "13.prems"]
  note k1 = cardinality_ok [OF s1 [THEN conjunct2], of a]
  note s3 = "13.IH"(2) [OF refl prod.collapse refl prod.collapse k1 [THEN conjunct2]]
  show ?case using s1 k1 s3 by (simp add: visit.simps split_def Let_def arith_per_element)
next
  case (14 rnd a f t s)
  note s1 = "14.IH"(1) [OF "14.prems"]
  note k1 = cardinality_ok [OF s1 [THEN conjunct2], of a]
  note s3 = "14.IH"(2) [OF refl prod.collapse refl prod.collapse k1 [THEN conjunct2]]
  show ?case using s1 k1 s3 by (simp add: visit.simps split_def Let_def arith_per_element)
next
  case (15 rnd m k' t s)
  note s1 = "15.IH"(1) [OF "15.prems"]
  note s2 = "15.IH"(2) [OF refl prod.collapse s1 [THEN conjunct2]]
  show ?case using s1 s2 by (simp add: visit.simps split_def Let_def arith_ESum)
next
  case (16 rnd a w t s)
  note s1 = "16.IH"(1) [OF "16.prems"]
  note k1 = cardinality_ok [OF s1 [THEN conjunct2], of a]
  note s3 = "16.IH"(2) [OF refl prod.collapse refl prod.collapse k1 [THEN conjunct2]]
  show ?case using s1 k1 s3 by (simp add: visit.simps split_def Let_def arith_ESum)
next
  case (17 rnd a t s)
  have "state_ok (s\<lparr>cm_secondaries := rnd (cm_secondaries s + statecost rnd a)\<rparr>)"
    using "17.prems" by (simp add: state_ok_def)
  from sizeof_ok [OF this, of a]
  show ?case by (simp add: visit.simps split_def Let_def arith_ESum)
next
  case (18 rnd a t s)
  note s1 = "18.IH" [OF "18.prems"]
  note k1 = cardinality_ok [OF s1 [THEN conjunct2], of a]
  show ?case using s1 k1
    by (simp add: visit.simps split_def Let_def arith_ESum arith_with_type)
next
  case (19 rnd a t s)
  note s1 = "19.IH" [OF "19.prems"]
  note k1 = cardinality_ok [OF s1 [THEN conjunct2], of a]
  show ?case using s1 k1
    by (simp add: visit.simps split_def Let_def arith_ESum arith_with_type)
qed (simp_all add: visit.simps arith_ESum)

subsection \<open>Cardinality derivation\<close>

lemma structural_alpha:
  assumes "alpha_equivalent x y"
  shows "structural x = structural y"
proof (cases "structural x")
  case True
  then show ?thesis
    using assms by (cases x; simp add: structural_def alpha_equivalent_def; cases y; simp)
next
  case False
  have "alpha_equivalent y x"
    using assms alpha_equivalent_sym by blast
  then have "\<not> structural y"
    using False by (cases y; simp add: structural_def alpha_equivalent_def; cases x; simp)
  with False show ?thesis by simp
qed

lemma cardinality_shared:
  assumes "\<not> structural x" "alpha_equivalent x y" "table_get (cm_cardinalities s) x = Some v"
  shows "cardinality y s = (v, s)"
proof -
  have "\<not> structural y"
    using assms(1,2) structural_alpha by blast
  moreover have "table_get (cm_cardinalities s) y = Some v"
    using assms(2,3) table_get_cong by metis
  ultimately show ?thesis
    by (rule cardinality_hit)
qed

text \<open>
  Claim C5. The cardinality of an empty collection is \<open>0\<close>, of a singleton \<open>1\<close>, of a
  concatenation the sum of the cardinalities of its parts (the term \<open>ESum\<close> of the two, whose
  value is the sum of their values), and of a map or a state wrapper that of the inner
  collection. Every other expression is looked up in the table: when the table has an
  entry for it, or for an alpha-equivalent expression, the variable of that entry is
  returned and nothing changes; when it has none, the expression gets a fresh integer
  variable, named after the counter, which the table holds from then on (entries are never
  removed or changed by \<open>cardinality\<close> or \<open>visit\<close>, and distinct counters give distinct names).
  The assumptions recorded after an allocation are: for a filter and for \<open>distinct\<close>,
  \<open>v <= c\<close> and \<open>v * 5 >= c * 4\<close> with \<open>c\<close> the cardinality of the source; for a difference,
  \<open>v <= c\<close> with \<open>c\<close> the cardinality of the minuend; for a conditional, the disjunction of
  \<open>v == c1\<close> and \<open>v == c2\<close> for the cardinalities of the two branches.
\<close>

theorem cardinality_rules:
  "cardinality (EEmptyList t) s = (ZERO, s)
   \<and> cardinality (ESingleton a t) s = (ONE, s)
   \<and> cardinality (EBinOp a ''+'' b t) s =
        (ESum [fst (cardinality a s), fst (cardinality b (snd (cardinality a s)))],
         snd (cardinality b (snd (cardinality a s))))
   \<and> (\<forall>env. int_value env (fst (cardinality (EBinOp a ''+'' b t) s)) =
          sum_opt [int_value env (fst (cardinality a s)),
                   int_value env (fst (cardinality b (snd (cardinality a s))))])
   \<and> cardinality (EMap a f t) s = cardinality a s
   \<and> cardinality (EStateVar a t) s = cardinality a s
   \<and> (\<not> structural x \<longrightarrow>
        (\<forall>v y. alpha_equivalent x y \<and> table_get (cm_cardinalities s) x = Some v \<longrightarrow>
               cardinality y s = (v, s))
      \<and> (table_get (cm_cardinalities s) x = None \<longrightarrow>
            fst (cardinality x s) = EVar (fresh_name (cm_counter s)) TInt
          \<and> table_get (cm_cardinalities (snd (cardinality x s))) x = Some (fst (cardinality x s))
          \<and> cm_counter s < cm_counter (snd (cardinality x s))))
   \<and> (\<forall>k v y. table_get (cm_cardinalities s) k = Some v \<longrightarrow>
          table_get (cm_cardinalities (snd (cardinality y s))) k = Some v
        \<and> table_get (cm_cardinalities (snd (visit rnd y s))) k = Some v)
   \<and> (\<forall>m n. fresh_name m = fresh_name n \<longrightarrow> m = n)
   \<and> (\<forall>v s1 cc s2. table_get (cm_cardinalities s) (EFilter a p t) = None
          \<and> (v, s1) = allocate (EFilter a p t) s \<and> (cc, s2) = cardinality a s1 \<longrightarrow>
        cardinality (EFilter a p t) s =
          (v, s2\<lparr>cm_assumptions := cm_assumptions s2 @
                 [EBinOp v ''<='' cc TBool,
                  EBinOp (EBinOp v ''*'' (ENum 5 TInt) TInt) ''>=''
                         (EBinOp cc ''*'' (ENum 4 TInt) TInt) TBool]\<rparr>))
   \<and> (\<forall>v s1 cc s2. table_get (cm_cardinalities s) (EUnaryOp UOp_Distinct a t) = None
          \<and> (v, s1) = allocate (EUnaryOp UOp_Distinct a t) s \<and> (cc, s2) = cardinality a s1 \<longrightarrow>
        cardinality (EUnaryOp UOp_Distinct a t) s =
          (v, s2\<lparr>cm_assumptions := cm_assumptions s2 @
                 [EBinOp v ''<='' cc TBool,
                  EBinOp (EBinOp v ''*'' (ENum 5 TInt) TInt) ''>=''
                         (EBinOp cc ''*'' (ENum 4 TInt) TInt) TBool]\<rparr>))
   \<and> (\<forall>v s1 c1 s2. table_get (cm_cardinalities s) (EBinOp a ''-'' b t) = None
          \<and> (v, s1) = allocate (EBinOp a ''-'' b t) s \<and> (c1, s2) = cardinality a s1 \<longrightarrow>
        cardinality (EBinOp a ''-'' b t) s =
          (v, s2\<lparr>cm_assumptions := cm_assumptions s2 @ [EBinOp v ''<='' c1 TBool]\<rparr>))
   \<and> (\<forall>v s1 c1 s2 c2 s3. table_get (cm_cardinalities s) (ECond c a b t) = None
          \<and> (v, s1) = allocate (ECond c a b t) s \<and> (c1, s2) = cardinality a s1
          \<and> (c2, s3) = cardinality b s2 \<longrightarrow>
        cardinality (ECond c a b t) s =
          (v, s3\<lparr>cm_assumptions := cm_assumptions s3 @
                 [EBinOp (EEq v c1) BOp_Or (EEq v c2) TBool]\<rparr>))"
proof -
  have structural_part: "cardinality (EBinOp a ''+'' b t) s =
        (ESum [fst (cardinality a s), fst (cardinality b (snd (cardinality a s)))],
         snd (cardinality b (snd (cardinality a s))))"
    by (simp add: split_def Let_def)
  have sum_part: "\<forall>env. int_value env (fst (cardinality (EBinOp a ''+'' b t) s)) =
          sum_opt [int_value env (fst (cardinality a s)),
                   int_value env (fst (cardinality b (snd (cardinality a s))))]"
    by (simp add: split_def Let_def int_value_ESum)
  have memo: "\<not> structural x \<longrightarrow>
        (\<forall>v y. alpha_equivalent x y \<and> table_get (cm_cardinalities s) x = Some v \<longrightarrow>
               cardinality y s = (v, s))
      \<and> (table_get (cm_cardinalities s) x = None \<longrightarrow>
            fst (cardinality x s) = EVar (fresh_name (cm_counter s)) TInt
          \<and> table_get (cm_cardinalities (snd (cardinality x s))) x = Some (fst (cardinality x s))
          \<and> cm_counter s < cm_counter (snd (cardinality x s)))"
    using cardinality_shared [of x _ s] cardinality_miss [of x s] by blast
  have keeps: "\<forall>k v y. table_get (cm_cardinalities s) k = Some v \<longrightarrow>
          table_get (cm_cardinalities (snd (cardinality y s))) k = Some v
        \<and> table_get (cm_cardinalities (snd (visit rnd y s))) k = Some v"
    using cardinality_keeps visit_keeps by blast
  have filter_part: "\<forall>v s1 cc s2. table_get (cm_cardinalities s) (EFilter a p t) = None
          \<and> (v, s1) = allocate (EFilter a p t) s \<and> (cc, s2) = cardinality a s1 \<longrightarrow>
        cardinality (EFilter a p t) s =
          (v, s2\<lparr>cm_assumptions := cm_assumptions s2 @
                 [EBinOp v ''<='' cc TBool,
                  EBinOp (EBinOp v ''*'' (ENum 5 TInt) TInt) ''>=''
                         (EBinOp cc ''*'' (ENum 4 TInt) TInt) TBool]\<rparr>)"
    by (auto simp: split_def Let_def add_assumption_def shrink_guard_def
        dest!: sym [of "(_, _)"])
  have distinct_part: "\<forall>v s1 cc s2. table_get (cm_cardinalities s) (EUnaryOp UOp_Distinct a t) = None
          \<and> (v, s1) = allocate (EUnaryOp UOp_Distinct a t) s \<and> (cc, s2) = cardinality a s1 \<longrightarrow>
        cardinality (EUnaryOp UOp_Distinct a t) s =
          (v, s2\<lparr>cm_assumptions := cm_assumptions s2 @
                 [EBinOp v ''<='' cc TBool,
                  EBinOp (EBinOp v ''*'' (ENum 5 TInt) TInt) ''>=''
                         (EBinOp cc ''*'' (ENum 4 TInt) TInt) TBool]\<rparr>)"
    by (auto simp: split_def Let_def add_assumption_def shrink_guard_def
        dest!: sym [of "(_, _)"])
  have minus_part: "\<forall>v s1 c1 s2. table_get (cm_cardinalities s) (EBinOp a ''-'' b t) = None
          \<and> (v, s1) = allocate (EBinOp a ''-'' b t) s \<and> (c1, s2) = cardinality a s1 \<longrightarrow>
        cardinality (EBinOp a ''-'' b t) s =
          (v, s2\<lparr>cm_assumptions := cm_assumptions s2 @ [EBinOp v ''<='' c1 TBool]\<rparr>)"
    by (auto simp: split_def Let_def add_assumption_def dest!: sym [of "(_, _)"])
  have cond_part: "\<forall>v s1 c1 s2 c2 s3. table_get (cm_cardinalities s) (ECond c a b t) = None
          \<and> (v, s1) = allocate (ECond c a b t) s \<and> (c1, s2) = cardinality a s1
          \<and> (c2, s3) = cardinality b s2 \<longrightarrow>
        cardinality (ECond c a b t) s =
          (v, s3\<lparr>cm_assumptions := cm_assumptions s3 @
                 [EBinOp (EEq v c1) BOp_Or (EEq v c2) TBool]\<rparr>)"
    by (auto simp: split_def Let_def add_assumption_def EAny_two_equalities
        dest!: sym [of "(_, _)"])
  show ?thesis
    using structural_part sum_part memo keeps filter_part distinct_part minus_part cond_part
      fresh_name_inj
    by (simp only: cardinality.simps simp_thms) blast
qed




theorem cardinality_rules_witness:
  "cardinality filter_x (empty_state 0) =
     (EVar ''_var0'' TInt,
      \<lparr>cm_cardinalities = [(filter_x, EVar ''_var0'' TInt),
                            (EVar ''xs'' (TBag TInt), EVar ''_var1'' TInt)],
       cm_assumptions =
         [EBinOp (EVar ''_var0'' TInt) ''<='' (EVar ''_var1'' TInt) TBool,
          EBinOp (EBinOp (EVar ''_var0'' TInt) ''*'' (ENum 5 TInt) TInt) ''>=''
                 (EBinOp (EVar ''_var1'' TInt) ''*'' (ENum 4 TInt) TInt) TBool],
       cm_secondaries = 0, cm_counter = 2\<rparr>)
   \<and> cardinality filter_y
       \<lparr>cm_cardinalities = [(filter_x, EVar ''_var0'' TInt),
                            (EVar ''xs'' (TBag TInt), EVar ''_var1'' TInt)],
        cm_assumptions = [], cm_secondaries = 0, cm_counter = 2\<rparr> =
     (EVar ''_var0'' TInt,
      \<lparr>cm_cardinalities = [(filter_x, EVar ''_var0'' TInt),
                            (EVar ''xs'' (TBag TInt), EVar ''_var1'' TInt)],
       cm_assumptions = [], cm_secondaries = 0, cm_counter = 2\<rparr>)"
proof -
  let ?xs = "EVar ''xs'' (TBag TInt)"
  let ?p = "ELambda ''x'' TInt (EBinOp (EVar ''x'' TInt) ''>'' (ENum 0 TInt) TBool)"
  let ?s1 = "\<lparr>cm_cardinalities = [(filter_x, EVar ''_var0'' TInt)], cm_assumptions = [],
              cm_secondaries = 0, cm_counter = 1\<rparr>"
  let ?s2 = "\<lparr>cm_cardinalities = [(filter_x, EVar ''_var0'' TInt), (?xs, EVar ''_var1'' TInt)],
              cm_assumptions = [], cm_secondaries = 0, cm_counter = 2\<rparr>"
  have none: "table_get (cm_cardinalities (empty_state 0)) (EFilter ?xs ?p (TBag TInt)) = None"
    by (simp add: empty_state_def)
  have al: "(EVar ''_var0'' TInt, ?s1) = allocate (EFilter ?xs ?p (TBag TInt)) (empty_state 0)"
    by (simp add: allocate_def fresh_var_def fresh_name_def show_nat.simps empty_state_def
        filter_x_def)
  have cc: "(EVar ''_var1'' TInt, ?s2) = cardinality ?xs ?s1"
    by (simp add: allocate_def fresh_var_def fresh_name_def show_nat.simps filter_x_def
        alpha_equivalent_def)
  have "\<forall>v s1 cc s2. table_get (cm_cardinalities (empty_state 0)) (EFilter ?xs ?p (TBag TInt)) = None
          \<and> (v, s1) = allocate (EFilter ?xs ?p (TBag TInt)) (empty_state 0)
          \<and> (cc, s2) = cardinality ?xs s1 \<longrightarrow>
        cardinality (EFilter ?xs ?p (TBag TInt)) (empty_state 0) =
          (v, s2\<lparr>cm_assumptions := cm_assumptions s2 @
                 [EBinOp v ''<='' cc TBool,
                  EBinOp (EBinOp v ''*'' (ENum 5 TInt) TInt) ''>=''
                         (EBinOp cc ''*'' (ENum 4 TInt) TInt) TBool]\<rparr>)"
    by (rule cardinality_rules [where s = "empty_state 0" and a = ?xs and p = ?p
          and t = "TBag TInt", THEN conjunct2, THEN conjunct2, THEN conjunct2,
          THEN conjunct2, THEN conjunct2, THEN conjunct2, THEN conjunct2, THEN conjunct2,
          THEN conjunct2, THEN conjunct1])
  from this [rule_format, OF conjI [OF none conjI [OF al cc]]]
  have first: "cardinality filter_x (empty_state 0) =
     (EVar ''_var0'' TInt, ?s2\<lparr>cm_assumptions :=
         [EBinOp (EVar ''_var0'' TInt) ''<='' (EVar ''_var1'' TInt) TBool,
          EBinOp (EBinOp (EVar ''_var0'' TInt) ''*'' (ENum 5 TInt) TInt) ''>=''
                 (EBinOp (EVar ''_var1'' TInt) ''*'' (ENum 4 TInt) TInt) TBool]\<rparr>)"
    by (simp add: filter_x_def)
  have ns: "\<not> structural filter_x"
    by (simp add: structural_def filter_x_def)
  have ae: "alpha_equivalent filter_x filter_y"
    by (simp add: alpha_equivalent_def filter_x_def filter_y_def)
  have tg: "table_get (cm_cardinalities ?s2) filter_x = Some (EVar ''_var0'' TInt)"
    by (simp add: alpha_equivalent_refl)
  have "\<not> structural filter_x \<longrightarrow>
        (\<forall>v y. alpha_equivalent filter_x y \<and> table_get (cm_cardinalities ?s2) filter_x = Some v \<longrightarrow>
               cardinality y ?s2 = (v, ?s2))
      \<and> (table_get (cm_cardinalities ?s2) filter_x = None \<longrightarrow>
            fst (cardinality filter_x ?s2) = EVar (fresh_name (cm_counter ?s2)) TInt
          \<and> table_get (cm_cardinalities (snd (cardinality filter_x ?s2))) filter_x
              = Some (fst (cardinality filter_x ?s2))
          \<and> cm_counter ?s2 < cm_counter (snd (cardinality filter_x ?s2)))"
    by (rule cardinality_rules [where s = ?s2 and x = filter_x, THEN conjunct2, THEN conjunct2,
          THEN conjunct2, THEN conjunct2, THEN conjunct2, THEN conjunct2, THEN conjunct1])
  then have second: "cardinality filter_y ?s2 = (EVar ''_var0'' TInt, ?s2)"
    using ns ae tg by blast
  show ?thesis
    using first second by simp
qed

subsection \<open>Costs outside the runtime pool, and the source expression of a runtime cost\<close>

text \<open>
  Claim C6. With the option \<open>simple-cost-model\<close> off, as it is by default, \<open>cost\<close> returns for
  every expression and every pool other than the runtime pool a \<open>Cost\<close> whose formula is the
  literal \<open>0\<close>, so that it evaluates to \<open>0\<close> under every binding, and whose secondary is the
  node count of the expression divided by 100. The counter of fresh names is left as it was.
\<close>

theorem cost_state_pool:
  assumes "p \<noteq> RUNTIME_POOL" "\<not> simple_cost_model opts"
  shows "\<exists>c. cost rnd opts x p n = (Inr c, n) \<and> formula c = ENum 0 TInt
           \<and> (\<forall>env. evaluate env (formula c) = Some (VInt 0))
           \<and> secondary c = rnd (of_nat (size_e x) / 100)
           \<and> cost_e c = Some x \<and> cost_pool c = Some p"
  using assms
  by (simp add: cost_def Cost_def ZERO_def T_def free_vars_def statecost_def)

theorem cost_state_pool_witness:
  "\<exists>c. cost (\<lambda>q. q) default_options (ELen (EVar ''xs'' (TBag TInt))) STATE_POOL 7 = (Inr c, 7)
       \<and> formula c = ENum 0 TInt \<and> secondary c = 1 / 50
       \<and> cost_e c = Some (ELen (EVar ''xs'' (TBag TInt)))"
  using cost_state_pool [of STATE_POOL default_options "\<lambda>q. q"
      "ELen (EVar ''xs'' (TBag TInt))" 7]
  by (auto simp: STATE_POOL_def RUNTIME_POOL_def default_options_def ELen_def)

text \<open>
  Claim C10 says that the \<open>Cost\<close> of the runtime pool records the argument of \<open>cost\<close> as its
  source expression, as the state pool does. For \<open>len xs\<close> with a bag \<open>xs\<close> and the default
  options, the runtime \<open>Cost\<close> records \<open>xs\<close>, the last key of the cardinality table: the
  loop of lines 377 and 378 has rebound \<open>e\<close>. The state pool records \<open>len xs\<close>.
\<close>

theorem cost_runtime_source_expression:
  "fst (cost rnd default_options (ELen (EVar ''xs'' (TBag TInt))) RUNTIME_POOL 0)
     = Inr \<lparr>cost_e = Some (EVar ''xs'' (TBag TInt)), cost_pool = Some RUNTIME_POOL,
            formula = EBinOp (EVar ''_var0'' TInt) ''+'' (ENum 2 TInt) TInt,
            secondary = 0,
            assumptions = EBinOp (EVar ''_var0'' TInt) ''>'' (ENum 1000 TInt) TBool,
            cardinalities = [(EVar ''_var0'' TInt, EVar ''xs'' (TBag TInt))]\<rparr>
   \<and> cost_e (projr (fst (cost rnd default_options (ELen (EVar ''xs'' (TBag TInt))) STATE_POOL 0)))
     = Some (ELen (EVar ''xs'' (TBag TInt)))"
  by code_simp

end
